theory Spec2Isabelle
  imports Complex_Main "HOL-Library.Sublist" "HOL-Library.AList"
begin

section \<open>Texts\<close>

text \<open>
  A text is a \<^typ>\<open>string\<close>: a list of 8-bit characters, read as the code units
  U+0000 to U+00FF of a JavaScript string. \<open>length\<close> is the source's \<open>.length\<close>.
  Code units above U+00FF are outside this model.
\<close>

definition isLineTerminator :: "char \<Rightarrow> bool" where
  "isLineTerminator c = (c \<in> set [CHR 0x0A, CHR 0x0D])"

text \<open>The characters \<open>\s\<close> stands for: TAB, LF, VT, FF, CR, SPACE and NBSP.\<close>

definition whiteSpaceChars :: "char list" where
  "whiteSpaceChars = [CHR 0x09, CHR 0x0A, CHR 0x0B, CHR 0x0C, CHR 0x0D, CHR 0x20, CHR 0xA0]"

definition isWhiteSpace :: "char \<Rightarrow> bool" where
  "isWhiteSpace c = (c \<in> set whiteSpaceChars)"

text \<open>The characters \<open>\d\<close>, \<open>A-Z\<close> and \<open>\w\<close> stand for.\<close>

definition digitChars :: "char list" where
  "digitChars = ''0123456789''"

definition capitalChars :: "char list" where
  "capitalChars = ''ABCDEFGHIJKLMNOPQRSTUVWXYZ''"

definition wordChars :: "char list" where
  "wordChars = ''abcdefghijklmnopqrstuvwxyz'' @ capitalChars @ digitChars @ ''_''"

definition isWordChar :: "char \<Rightarrow> bool" where
  "isWordChar c = (c \<in> set wordChars)"

text \<open>
  \<open>String.prototype.toLowerCase\<close> on one code unit: the ASCII capitals, and the
  capitals of the Latin-1 block (U+00C0 to U+00DE without the multiplication sign).
\<close>

definition toLowerCase_char :: "char \<Rightarrow> char" where
  "toLowerCase_char c =
     (let n = (of_char c :: nat)
      in if (65 \<le> n \<and> n \<le> 90) \<or> (192 \<le> n \<and> n \<le> 222 \<and> n \<noteq> 215)
         then char_of (n + 32) else c)"

definition toLowerCase :: "string \<Rightarrow> string" where
  "toLowerCase s = map toLowerCase_char s"

text \<open>
  The upper-case mapping a regular expression with the \<open>i\<close> flag compares characters
  under. The small letters U+00B5 and U+00FF have their capitals beyond U+00FF, shared with
  no other 8-bit character, and stay as they are here.
\<close>

definition toUpperCase_char :: "char \<Rightarrow> char" where
  "toUpperCase_char c =
     (let n = (of_char c :: nat)
      in if (97 \<le> n \<and> n \<le> 122) \<or> (224 \<le> n \<and> n \<le> 254 \<and> n \<noteq> 247)
         then char_of (n - 32) else c)"

text \<open>\<open>String.prototype.includes\<close>: the second string occurs in the first, contiguously.\<close>

fun str_includes :: "string \<Rightarrow> string \<Rightarrow> bool" where
  "str_includes [] w = (w = [])"
| "str_includes (c # cs) w = (prefix w (c # cs) \<or> str_includes cs w)"

section \<open>Regular expressions\<close>

text \<open>
  The patterns of the source use literal characters, \<open>.\<close>, character classes (here
  the list of the characters of the class, and whether the class is negated),
  alternatives, capture groups, back-references, quantifiers (greedy and lazy), \<open>^\<close>,
  \<open>$\<close> and \<open>\b\<close>. The matcher below is the backtracking matcher of the language
  definition, with the list of all results in the order backtracking tries them in place
  of the continuation.
\<close>

datatype regex =
    Empty
  | Chr char
  | Dot
  | Class bool "char list"
  | Seq regex regex
  | Alt regex regex
  | Group nat regex
  | Backref nat
  | Rep nat "nat option" bool regex
  | Bol
  | Eol
  | WordB

text \<open>
  The state of a match: the input read so far (latest character first), the input still
  ahead, and the captures made.
\<close>

record mstate =
  seen :: string
  rest :: string
  caps :: "(nat \<times> string) list"

definition endIndex :: "mstate \<Rightarrow> nat" where
  "endIndex s = length (seen s)"

definition Canonicalize :: "bool \<Rightarrow> char \<Rightarrow> char" where
  "Canonicalize ic c = (if ic then toUpperCase_char c else c)"

definition advance :: "nat \<Rightarrow> mstate \<Rightarrow> mstate" where
  "advance n s = s\<lparr>seen := rev (take n (rest s)) @ seen s, rest := drop n (rest s)\<rparr>"

text \<open>One character against a set of characters, inverted or not.\<close>

definition CharacterSetMatcher :: "bool \<Rightarrow> char list \<Rightarrow> bool \<Rightarrow> mstate \<Rightarrow> mstate list" where
  "CharacterSetMatcher ic A invert s =
     (case rest s of
        [] \<Rightarrow> []
      | ch # _ \<Rightarrow>
          (let cc = Canonicalize ic ch;
               found = list_ex (\<lambda>a. Canonicalize ic a = cc) A
           in if invert = found then [] else [advance 1 s]))"

definition DotMatcher :: "mstate \<Rightarrow> mstate list" where
  "DotMatcher s =
     (case rest s of
        [] \<Rightarrow> []
      | ch # _ \<Rightarrow> if isLineTerminator ch then [] else [advance 1 s])"

definition BackreferenceMatcher :: "bool \<Rightarrow> nat \<Rightarrow> mstate \<Rightarrow> mstate list" where
  "BackreferenceMatcher ic n s =
     (case map_of (caps s) n of
        None \<Rightarrow> [s]
      | Some str \<Rightarrow>
          if length str \<le> length (rest s)
             \<and> map (Canonicalize ic) (take (length str) (rest s)) = map (Canonicalize ic) str
          then [advance (length str) s] else [])"

definition WordBoundary :: "mstate \<Rightarrow> mstate list" where
  "WordBoundary s =
     (let a = (case seen s of [] \<Rightarrow> False | c # _ \<Rightarrow> isWordChar c);
          b = (case rest s of [] \<Rightarrow> False | c # _ \<Rightarrow> isWordChar c)
      in if a \<noteq> b then [s] else [])"

fun groups :: "regex \<Rightarrow> nat list" where
  "groups (Seq r1 r2) = groups r1 @ groups r2"
| "groups (Alt r1 r2) = groups r1 @ groups r2"
| "groups (Group n r) = n # groups r"
| "groups (Rep mn mx g r) = groups r"
| "groups r = []"

definition capture :: "nat \<Rightarrow> mstate \<Rightarrow> mstate \<Rightarrow> mstate" where
  "capture n s y =
     y\<lparr>caps := (n, take (length (rest s) - length (rest y)) (rest s))
                 # filter (\<lambda>(k, _). k \<noteq> n) (caps y)\<rparr>"

text \<open>
  A quantifier over a matcher \<open>m\<close>. Each round starts with the captures of the quantified
  part cleared. Once the minimum is reached, a round that reads nothing is rejected: the
  matcher only reads forward, so "ends where it started" is "has not less input ahead".
\<close>

function RepeatMatcher ::
  "(mstate \<Rightarrow> mstate list) \<Rightarrow> nat list \<Rightarrow> nat \<Rightarrow> nat option \<Rightarrow> bool \<Rightarrow> mstate \<Rightarrow> mstate list" where
  "RepeatMatcher m gs mn mx greedy s =
     (if mx = Some 0 then [s]
      else if mn \<noteq> 0 then
        concat (map (\<lambda>y. RepeatMatcher m gs (mn - 1) (map_option (\<lambda>k. k - 1) mx) greedy y)
                    (m (s\<lparr>caps := filter (\<lambda>(k, _). k \<notin> set gs) (caps s)\<rparr>)))
      else if greedy then
        concat (map (\<lambda>y. RepeatMatcher m gs 0 (map_option (\<lambda>k. k - 1) mx) greedy y)
                    (filter (\<lambda>y. length (rest y) < length (rest s))
                       (m (s\<lparr>caps := filter (\<lambda>(k, _). k \<notin> set gs) (caps s)\<rparr>)))) @ [s]
      else
        s # concat (map (\<lambda>y. RepeatMatcher m gs 0 (map_option (\<lambda>k. k - 1) mx) greedy y)
                    (filter (\<lambda>y. length (rest y) < length (rest s))
                       (m (s\<lparr>caps := filter (\<lambda>(k, _). k \<notin> set gs) (caps s)\<rparr>)))))"
  by pat_completeness auto
termination
  by (relation "measures [\<lambda>(m, gs, mn, mx, greedy, s). mn,
                          \<lambda>(m, gs, mn, mx, greedy, s). length (rest s)]") auto

fun run :: "bool \<Rightarrow> regex \<Rightarrow> mstate \<Rightarrow> mstate list" where
  "run ic Empty s = [s]"
| "run ic (Chr a) s = CharacterSetMatcher ic [a] False s"
| "run ic Dot s = DotMatcher s"
| "run ic (Class invert A) s = CharacterSetMatcher ic A invert s"
| "run ic (Seq r1 r2) s = concat (map (run ic r2) (run ic r1 s))"
| "run ic (Alt r1 r2) s = run ic r1 s @ run ic r2 s"
| "run ic (Group n r) s = map (capture n s) (run ic r s)"
| "run ic (Backref n) s = BackreferenceMatcher ic n s"
| "run ic (Rep mn mx greedy r) s = RepeatMatcher (run ic r) (groups r) mn mx greedy s"
| "run ic Bol s = (if seen s = [] then [s] else [])"
| "run ic Eol s = (if rest s = [] then [s] else [])"
| "run ic WordB s = WordBoundary s"

text \<open>
  A result state \<open>y\<close> of a matcher started in \<open>s\<close> is over the same input and not
  behind \<open>s\<close>.
\<close>

definition reads_on :: "mstate \<Rightarrow> mstate \<Rightarrow> bool" where
  "reads_on s y \<longleftrightarrow> rev (seen y) @ rest y = rev (seen s) @ rest s \<and> length (rest y) \<le> length (rest s)"

text \<open>
  The search of \<open>RegExp.prototype.exec\<close>: the first start position, from the given one
  on, at which the pattern matches; the result is the index where that match ends.
\<close>

fun search :: "bool \<Rightarrow> regex \<Rightarrow> string \<Rightarrow> string \<Rightarrow> nat option" where
  "search ic r sn [] =
     (case run ic r \<lparr>seen = sn, rest = [], caps = []\<rparr> of
        y # _ \<Rightarrow> Some (endIndex y)
      | [] \<Rightarrow> None)"
| "search ic r sn (c # cs) =
     (case run ic r \<lparr>seen = sn, rest = c # cs, caps = []\<rparr> of
        y # _ \<Rightarrow> Some (endIndex y)
      | [] \<Rightarrow> search ic r (c # sn) cs)"

record RegExp =
  pattern :: regex
  ignoreCase :: bool
  global :: bool

text \<open>
  \<open>RegExp.prototype.test\<close>, with the object's \<open>lastIndex\<close> passed in and returned. A
  regular expression without the \<open>g\<close> flag searches from the start and leaves
  \<open>lastIndex\<close> alone; one with the flag searches from \<open>lastIndex\<close>, and sets it to the
  end of the match, or to 0 when there is none.
\<close>

definition test :: "RegExp \<Rightarrow> nat \<Rightarrow> string \<Rightarrow> bool \<times> nat" where
  "test re lastIndex str =
     (if global re then
        (if lastIndex > length str then (False, 0)
         else (case search (ignoreCase re) (pattern re)
                      (rev (take lastIndex str)) (drop lastIndex str) of
                 None \<Rightarrow> (False, 0)
               | Some e \<Rightarrow> (True, e)))
      else (search (ignoreCase re) (pattern re) [] str \<noteq> None, lastIndex))"

fun seqs :: "regex list \<Rightarrow> regex" where
  "seqs [] = Empty"
| "seqs [r] = r"
| "seqs (r # rs) = Seq r (seqs rs)"

definition lit :: "string \<Rightarrow> regex" where
  "lit s = seqs (map Chr s)"

definition plusq :: "regex \<Rightarrow> regex" where
  "plusq r = Rep 1 None True r"

section \<open>The message moderator (src/utils/messageModerator.ts)\<close>

datatype FlagReason = profanity | spam | harassment | inappropriate | manual

datatype Severity = low | medium | high

datatype ReviewAction = approved | deleted | edited

definition PROFANITY_mild :: "string list" where
  "PROFANITY_mild = [''damn'', ''hell'', ''crap'', ''stupid'', ''idiot'', ''moron'', ''dumb'']"

definition PROFANITY_moderate :: "string list" where
  "PROFANITY_moderate = [''hate'', ''kill'', ''die'', ''trash'', ''garbage'', ''worthless'']"

definition PROFANITY_severe :: "string list" where
  "PROFANITY_severe = [''extreme profanity would go here'']"

definition ws :: regex where
  "ws = Class False whiteSpaceChars"

text \<open>
  \<open>HARASSMENT_PATTERNS\<close>, in the order of the source:
  \<^verbatim>\<open>/you\s+(should|need to)\s+(die|kill yourself)/i\<close>,
  \<^verbatim>\<open>/kys/i\<close>,
  \<^verbatim>\<open>/go\s+kill\s+yourself/i\<close>,
  \<^verbatim>\<open>/nobody\s+likes\s+you/i\<close>,
  \<^verbatim>\<open>/you\s+are\s+(worthless|pathetic|disgusting)/i\<close>.
\<close>

definition HARASSMENT_PATTERNS :: "RegExp list" where
  "HARASSMENT_PATTERNS =
    [ \<lparr>pattern = seqs [lit ''you'', plusq ws, Group 1 (Alt (lit ''should'') (lit ''need to'')),
                       plusq ws, Group 2 (Alt (lit ''die'') (lit ''kill yourself''))],
       ignoreCase = True, global = False\<rparr>,
      \<lparr>pattern = lit ''kys'', ignoreCase = True, global = False\<rparr>,
      \<lparr>pattern = seqs [lit ''go'', plusq ws, lit ''kill'', plusq ws, lit ''yourself''],
       ignoreCase = True, global = False\<rparr>,
      \<lparr>pattern = seqs [lit ''nobody'', plusq ws, lit ''likes'', plusq ws, lit ''you''],
       ignoreCase = True, global = False\<rparr>,
      \<lparr>pattern = seqs [lit ''you'', plusq ws, lit ''are'', plusq ws,
                       Group 1 (Alt (lit ''worthless'') (Alt (lit ''pathetic'') (lit ''disgusting'')))],
       ignoreCase = True, global = False\<rparr> ]"

text \<open>
  \<open>SPAM_PATTERNS\<close>, in the order of the source, with the source's comments:
  \<^verbatim>\<open>/(.)\1{5,}/i\<close> (repeated characters),
  \<^verbatim>\<open>/^[A-Z\s!]{15,}$/i\<close> (all caps messages, longer threshold),
  \<^verbatim>\<open>/(\b\w+\b.*?){3,}\1/i\<close> (repeated words or phrases),
  \<^verbatim>\<open>/(https?:\/\/[^\s]+)/gi\<close> (URLs),
  \<^verbatim>\<open>/(\b\d{10,}\b)/g\<close> (long number sequences).
\<close>

definition SPAM_PATTERNS :: "RegExp list" where
  "SPAM_PATTERNS =
    [ \<lparr>pattern = Seq (Group 1 Dot) (Rep 5 None True (Backref 1)),
       ignoreCase = True, global = False\<rparr>,
      \<lparr>pattern = seqs [Bol, Rep 15 None True (Class False (capitalChars @ whiteSpaceChars @ ''!'')), Eol],
       ignoreCase = True, global = False\<rparr>,
      \<lparr>pattern = Seq (Rep 3 None True
                         (Group 1 (seqs [WordB, plusq (Class False wordChars), WordB, Rep 0 None False Dot])))
                      (Backref 1),
       ignoreCase = True, global = False\<rparr>,
      \<lparr>pattern = Group 1 (seqs [lit ''http'', Rep 0 (Some 1) True (Chr CHR ''s''), lit ''://'',
                                plusq (Class True whiteSpaceChars)]),
       ignoreCase = True, global = True\<rparr>,
      \<lparr>pattern = Group 1 (seqs [WordB, Rep 10 None True (Class False digitChars), WordB]),
       ignoreCase = False, global = True\<rparr> ]"

text \<open>The value \<open>moderateMessage\<close> returns; an absent field is \<open>None\<close>.\<close>

record ModerationResult =
  shouldFlag :: bool
  shouldDelete :: bool
  flagReason :: "FlagReason option"
  severity :: "Severity option"

text \<open>\<open>for (const word of words) if (lowerMessage.includes(word.toLowerCase())) return ...\<close>\<close>

definition includesAny :: "string \<Rightarrow> string list \<Rightarrow> bool" where
  "includesAny lowerMessage words = list_ex (\<lambda>word. str_includes lowerMessage (toLowerCase word)) words"

text \<open>
  \<open>for (const pattern of patterns) if (pattern.test(message)) return ...\<close>, over
  regular expressions and their \<open>lastIndex\<close> values: whether one matched, and the
  \<open>lastIndex\<close> values afterwards. The loop stops at the first match.
\<close>

fun testAny :: "RegExp list \<Rightarrow> nat list \<Rightarrow> string \<Rightarrow> bool \<times> nat list" where
  "testAny [] lis message = (False, lis)"
| "testAny (p # ps) lis message =
     (case test p (case lis of [] \<Rightarrow> 0 | li # _ \<Rightarrow> li) message of
        (True, li') \<Rightarrow> (True, li' # tl lis)
      | (False, li') \<Rightarrow>
          (case testAny ps (tl lis) message of (b, lis') \<Rightarrow> (b, li' # lis')))"

text \<open>
  \<open>MessageModerator.moderateMessage\<close>. The patterns are constants of the module, and two
  of \<open>SPAM_PATTERNS\<close> carry the \<open>g\<close> flag, so the call reads and writes their
  \<open>lastIndex\<close>: the first argument holds the \<open>lastIndex\<close> of each of \<open>SPAM_PATTERNS\<close>
  before the call, the second component of the result holds them after it. The
  \<open>HARASSMENT_PATTERNS\<close> have no \<open>g\<close> flag and their \<open>lastIndex\<close> stays 0.
\<close>

definition moderateMessage :: "nat list \<Rightarrow> string \<Rightarrow> ModerationResult \<times> nat list" where
  "moderateMessage spamIdx message =
     (let lowerMessage = toLowerCase message in
      if includesAny lowerMessage PROFANITY_severe then
        (\<lparr>shouldFlag = True, shouldDelete = True, flagReason = Some profanity, severity = Some high\<rparr>, spamIdx)
      else if fst (testAny HARASSMENT_PATTERNS [] message) then
        (\<lparr>shouldFlag = True, shouldDelete = True, flagReason = Some harassment, severity = Some high\<rparr>, spamIdx)
      else if includesAny lowerMessage PROFANITY_moderate then
        (\<lparr>shouldFlag = True, shouldDelete = False, flagReason = Some profanity, severity = Some medium\<rparr>, spamIdx)
      else if includesAny lowerMessage PROFANITY_mild then
        (\<lparr>shouldFlag = True, shouldDelete = False, flagReason = Some profanity, severity = Some low\<rparr>, spamIdx)
      else
        (case testAny SPAM_PATTERNS spamIdx message of
           (True, spamIdx') \<Rightarrow>
             (\<lparr>shouldFlag = True, shouldDelete = False, flagReason = Some spam, severity = Some medium\<rparr>, spamIdx')
         | (False, spamIdx') \<Rightarrow>
             if length message > 800 then
               (\<lparr>shouldFlag = True, shouldDelete = False, flagReason = Some inappropriate, severity = Some low\<rparr>, spamIdx')
             else
               (\<lparr>shouldFlag = False, shouldDelete = False, flagReason = None, severity = None\<rparr>, spamIdx')))"

subsection \<open>Flag records\<close>

text \<open>The interface \<open>FlaggedMessage\<close>; the fields marked \<open>?\<close> in the source are options.\<close>

record FlaggedMessage =
  fm_id :: string
  fm_text :: string
  fm_user :: string
  fm_userId :: "string option"
  fm_timestamp :: int
  fm_flagReason :: FlagReason
  fm_flaggedAt :: int
  fm_flaggedBy :: "string option"
  fm_autoFlagged :: bool
  fm_severity :: Severity
  fm_reviewed :: bool
  fm_reviewedBy :: "string option"
  fm_reviewedAt :: "int option"
  fm_action :: "ReviewAction option"

record FlaggedMessagesStats =
  total :: nat
  unreviewed :: nat
  bySeverity_low :: nat
  bySeverity_medium :: nat
  bySeverity_high :: nat
  byReason_profanity :: nat
  byReason_spam :: nat
  byReason_harassment :: nat
  byReason_inappropriate :: nat
  byReason_manual :: nat
  autoFlagged :: nat
  manualFlagged :: nat

text \<open>\<open>MessageModerator.getFlaggedMessagesStats\<close>\<close>

definition getFlaggedMessagesStats :: "FlaggedMessage list \<Rightarrow> FlaggedMessagesStats" where
  "getFlaggedMessagesStats flaggedMessages =
     (let unrev = filter (\<lambda>msg. \<not> fm_reviewed msg) flaggedMessages in
      \<lparr>total = length flaggedMessages,
       unreviewed = length unrev,
       bySeverity_low = length (filter (\<lambda>msg. fm_severity msg = low) unrev),
       bySeverity_medium = length (filter (\<lambda>msg. fm_severity msg = medium) unrev),
       bySeverity_high = length (filter (\<lambda>msg. fm_severity msg = high) unrev),
       byReason_profanity = length (filter (\<lambda>msg. fm_flagReason msg = profanity) unrev),
       byReason_spam = length (filter (\<lambda>msg. fm_flagReason msg = spam) unrev),
       byReason_harassment = length (filter (\<lambda>msg. fm_flagReason msg = harassment) unrev),
       byReason_inappropriate = length (filter (\<lambda>msg. fm_flagReason msg = inappropriate) unrev),
       byReason_manual = length (filter (\<lambda>msg. fm_flagReason msg = manual) unrev),
       autoFlagged = length (filter (\<lambda>msg. fm_autoFlagged msg) unrev),
       manualFlagged = length (filter (\<lambda>msg. \<not> fm_autoFlagged msg) unrev)\<rparr>)"

section \<open>The record store\<close>

text \<open>
  The database is a tree of keyed children. Each collection the code uses is an association
  list from the child's key to its value, in the order in which \<open>Object.entries\<close> lists
  the children of a snapshot; a new key goes to the end. The keys are push ids and user
  ids.

  What a node holds is whatever was written to it: an \<open>update\<close> sets the children it
  names and leaves the others, and creates the node when there is none. So a stored flag
  record or user profile may lack any field, and each field is an option.
\<close>

record Message =
  m_text :: string
  m_user :: string
  m_userId :: "string option"
  m_timestamp :: int

record FlagNode =
  fn_id :: "string option"
  fn_text :: "string option"
  fn_user :: "string option"
  fn_userId :: "string option"
  fn_timestamp :: "int option"
  fn_flagReason :: "FlagReason option"
  fn_flaggedAt :: "int option"
  fn_flaggedBy :: "string option"
  fn_autoFlagged :: "bool option"
  fn_severity :: "Severity option"
  fn_reviewed :: "bool option"
  fn_reviewedBy :: "string option"
  fn_reviewedAt :: "int option"
  fn_action :: "ReviewAction option"

definition emptyFlagNode :: FlagNode where
  "emptyFlagNode =
     \<lparr>fn_id = None, fn_text = None, fn_user = None, fn_userId = None, fn_timestamp = None,
      fn_flagReason = None, fn_flaggedAt = None, fn_flaggedBy = None, fn_autoFlagged = None,
      fn_severity = None, fn_reviewed = None, fn_reviewedBy = None, fn_reviewedAt = None,
      fn_action = None\<rparr>"

datatype BanType = temporary | permanent

datatype UserStatus = active | banned | suspended

text \<open>The interface \<open>BanRecord\<close> of src/utils/userManager.ts.\<close>

record BanRecord =
  ban_id :: string
  ban_userId :: string
  ban_bannedBy :: string
  ban_reason :: string
  ban_type :: BanType
  ban_startDate :: int
  ban_endDate :: "int option"
  ban_isActive :: bool
  ban_revokedBy :: "string option"
  ban_revokedAt :: "int option"
  ban_revokeReason :: "string option"

text \<open>The children of \<open>users/{uid}\<close> that the functions below read or write.\<close>

record UserNode =
  u_email :: "string option"
  u_displayName :: "string option"
  u_lastActive :: "int option"
  u_status :: "UserStatus option"
  u_banHistory :: "(string \<times> BanRecord) list"

definition emptyUserNode :: UserNode where
  "emptyUserNode =
     \<lparr>u_email = None, u_displayName = None, u_lastActive = None, u_status = None,
      u_banHistory = []\<rparr>"

datatype ActivityAction =
  login | logout | message_sent | message_deleted | user_reported | message_flagged

datatype ActivityDetails =
    no_details
  | user_banned string string BanType "int option"
  | user_unbanned string string

record UserActivity =
  act_userId :: string
  act_action :: ActivityAction
  act_timestamp :: int
  act_details :: ActivityDetails

record Store =
  messages :: "(string \<times> Message) list"
  flaggedMessages :: "(string \<times> FlagNode) list"
  users :: "(string \<times> UserNode) list"
  bans :: "(string \<times> BanRecord) list"
  userActivity :: "UserActivity list"

definition emptyStore :: Store where
  "emptyStore = \<lparr>messages = [], flaggedMessages = [], users = [], bans = [], userActivity = []\<rparr>"

text \<open>
  \<open>update(ref, fields)\<close> on a keyed child: \<open>f\<close> sets the fields written, on the node
  there is, or on the empty node \<open>e\<close>.
\<close>

definition updateNode :: "'v \<Rightarrow> string \<Rightarrow> ('v \<Rightarrow> 'v) \<Rightarrow> (string \<times> 'v) list \<Rightarrow> (string \<times> 'v) list" where
  "updateNode e k f al =
     AList.update k (f (case map_of al k of None \<Rightarrow> e | Some v \<Rightarrow> v)) al"

text \<open>
  A call to the database can fail, and the source catches the failure. Each function below
  takes, for each of its database calls, whether that call succeeds. A write whose value
  has a field that is \<open>undefined\<close> is refused by \<open>update\<close> and \<open>push\<close>
  whatever the database does: the call throws before anything is written.
\<close>

subsection \<open>Flagging and review (src/utils/messageModerator.ts)\<close>

record MessageData =
  md_id :: string
  md_text :: string
  md_user :: string
  md_userId :: "string option"
  md_timestamp :: int

text \<open>
  \<open>MessageModerator.flagMessage\<close>; \<open>now\<close> is \<open>Date.now()\<close>. The object written
  always has the field \<open>flaggedBy\<close>, so without a \<open>flaggedBy\<close> the write is
  refused and the result is false. A \<open>messageData\<close> without \<open>userId\<close> is one that
  has no such field, and none is written.
\<close>

definition flagMessage ::
  "bool \<Rightarrow> int \<Rightarrow> MessageData \<Rightarrow> FlagReason \<Rightarrow> Severity \<Rightarrow> string option \<Rightarrow> bool \<Rightarrow> Store
     \<Rightarrow> bool \<times> Store" where
  "flagMessage okUpdate now messageData reason sev flaggedBy autoFl st =
     (if okUpdate \<and> flaggedBy \<noteq> None then
        (True,
         st\<lparr>flaggedMessages :=
              updateNode emptyFlagNode (md_id messageData)
                (\<lambda>n. n\<lparr>fn_id := Some (md_id messageData),
                        fn_text := Some (md_text messageData),
                        fn_user := Some (md_user messageData),
                        fn_userId := (case md_userId messageData of None \<Rightarrow> fn_userId n | Some u \<Rightarrow> Some u),
                        fn_timestamp := Some (md_timestamp messageData),
                        fn_flagReason := Some reason,
                        fn_flaggedAt := Some now,
                        fn_flaggedBy := flaggedBy,
                        fn_autoFlagged := Some autoFl,
                        fn_severity := Some sev,
                        fn_reviewed := Some False\<rparr>)
                (flaggedMessages st)\<rparr>)
      else (False, st))"

text \<open>\<open>MessageModerator.deleteMessage\<close>\<close>

definition deleteMessage :: "bool \<Rightarrow> string \<Rightarrow> Store \<Rightarrow> bool \<times> Store" where
  "deleteMessage okRemove messageId st =
     (if okRemove then (True, st\<lparr>messages := AList.delete messageId (messages st)\<rparr>)
      else (False, st))"

text \<open>
  \<open>MessageModerator.reviewFlaggedMessage\<close>. The result of \<open>deleteMessage\<close> is not looked
  at.
\<close>

definition reviewFlaggedMessage ::
  "bool \<Rightarrow> bool \<Rightarrow> int \<Rightarrow> string \<Rightarrow> string \<Rightarrow> ReviewAction \<Rightarrow> Store \<Rightarrow> bool \<times> Store" where
  "reviewFlaggedMessage okUpdate okRemove now messageId reviewerId act st =
     (if okUpdate then
        (let st1 = st\<lparr>flaggedMessages :=
                        updateNode emptyFlagNode messageId
                          (\<lambda>n. n\<lparr>fn_reviewed := Some True,
                                  fn_reviewedBy := Some reviewerId,
                                  fn_reviewedAt := Some now,
                                  fn_action := Some act\<rparr>)
                          (flaggedMessages st)\<rparr>;
             st2 = (if act = deleted then snd (deleteMessage okRemove messageId st1) else st1)
         in (True, st2))
      else (False, st))"

text \<open>A read of \<open>messages/{id}\<close> and of \<open>flaggedMessages/{id}\<close>.\<close>

definition readMessage :: "Store \<Rightarrow> string \<Rightarrow> Message option" where
  "readMessage st k = map_of (messages st) k"

definition readFlag :: "Store \<Rightarrow> string \<Rightarrow> FlagNode option" where
  "readFlag st k = map_of (flaggedMessages st) k"

subsection \<open>Bans (src/utils/userManager.ts)\<close>

text \<open>
  \<open>UserManager.logActivity\<close>: the failure of the write is caught and logged. A call
  without \<open>details\<close> writes an object whose \<open>details\<close> is \<open>undefined\<close>, which
  is refused.
\<close>

definition logActivity ::
  "bool \<Rightarrow> int \<Rightarrow> string \<Rightarrow> ActivityAction \<Rightarrow> ActivityDetails \<Rightarrow> Store \<Rightarrow> Store" where
  "logActivity okPush now uid act details st =
     (if okPush \<and> details \<noteq> no_details then
        st\<lparr>userActivity := userActivity st @
              [\<lparr>act_userId = uid, act_action = act, act_timestamp = now, act_details = details\<rparr>]\<rparr>
      else st)"

text \<open>
  The object \<open>banRecord\<close> that \<open>banUser\<close> builds, and its \<open>update\<close> onto the node
  at \<open>bans/{banId}\<close>: the fields of \<open>banRecord\<close> are set, the others stay. On a key
  that has no node, the node is \<open>banRecord\<close>.
\<close>

definition newBanRecord ::
  "string \<Rightarrow> string \<Rightarrow> string \<Rightarrow> string \<Rightarrow> BanType \<Rightarrow> int \<Rightarrow> int option \<Rightarrow> BanRecord" where
  "newBanRecord banId userId bannedBy reason type startDate endDate =
     \<lparr>ban_id = banId, ban_userId = userId, ban_bannedBy = bannedBy, ban_reason = reason,
      ban_type = type, ban_startDate = startDate, ban_endDate = endDate, ban_isActive = True,
      ban_revokedBy = None, ban_revokedAt = None, ban_revokeReason = None\<rparr>"

definition writeBanRecord :: "BanRecord \<Rightarrow> BanRecord \<Rightarrow> BanRecord" where
  "writeBanRecord banRecord node =
     node\<lparr>ban_id := ban_id banRecord, ban_userId := ban_userId banRecord,
          ban_bannedBy := ban_bannedBy banRecord, ban_reason := ban_reason banRecord,
          ban_type := ban_type banRecord, ban_startDate := ban_startDate banRecord,
          ban_endDate := ban_endDate banRecord,
          ban_isActive := ban_isActive banRecord\<rparr>"

text \<open>
  \<open>UserManager.banUser\<close>. \<open>banId\<close> is the key \<open>push(this.bansRef).key\<close> gives,
  \<open>now\<close> the first \<open>Date.now()\<close> and \<open>logNow\<close> the one of \<open>logActivity\<close>. The
  three booleans are the outcomes of the write of the ban, of the write of the profile and
  of the write of the activity. \<open>duration\<close> counts when it is given and not 0;
  otherwise, and for a permanent ban, \<open>endDate\<close> is \<open>undefined\<close>, the first write is
  refused, and the result is false with nothing written.
\<close>

definition banUser ::
  "bool \<Rightarrow> bool \<Rightarrow> bool \<Rightarrow> string \<Rightarrow> int \<Rightarrow> int \<Rightarrow> string \<Rightarrow> string \<Rightarrow> string \<Rightarrow> BanType \<Rightarrow> int option
     \<Rightarrow> Store \<Rightarrow> bool \<times> Store" where
  "banUser okBan okUser okLog banId now logNow userId bannedBy reason type duration st =
     (let startDate = now;
          endDate = (case duration of
                       None \<Rightarrow> None
                     | Some d \<Rightarrow> if type = temporary \<and> d \<noteq> 0
                                then Some (startDate + d * 60 * 60 * 1000) else None);
          banRecord = newBanRecord banId userId bannedBy reason type startDate endDate
      in if \<not> okBan \<or> endDate = None then (False, st)
         else
           (let st1 = st\<lparr>bans := updateNode banRecord banId (writeBanRecord banRecord) (bans st)\<rparr>
            in if \<not> okUser then (False, st1)
               else
                 (let st2 = st1\<lparr>users :=
                              updateNode emptyUserNode userId
                                (\<lambda>u. u\<lparr>u_status := Some banned,
                                        u_banHistory := updateNode banRecord banId
                                                          (writeBanRecord banRecord) (u_banHistory u)\<rparr>)
                                (users st1)\<rparr>
                  in (True, logActivity okLog logNow bannedBy user_reported
                              (user_banned userId reason type duration) st2))))"

text \<open>
  \<open>UserManager.unbanUser\<close>. The booleans are the outcomes of the read of the bans, of the
  write of the ban, of the write of the profile and of the write of the activity.
\<close>

definition unbanUser ::
  "bool \<Rightarrow> bool \<Rightarrow> bool \<Rightarrow> bool \<Rightarrow> int \<Rightarrow> int \<Rightarrow> string \<Rightarrow> string \<Rightarrow> string \<Rightarrow> Store \<Rightarrow> bool \<times> Store" where
  "unbanUser okGet okBan okUser okLog now logNow userId revokedBy revokeReason st =
     (if \<not> okGet then (False, st)
      else
        (case find (\<lambda>(_, ban). ban_userId ban = userId \<and> ban_isActive ban) (bans st) of
           None \<Rightarrow> (False, st)
         | Some (banId, _) \<Rightarrow>
             if \<not> okBan then (False, st)
             else
               (let st1 = st\<lparr>bans :=
                            AList.map_entry banId
                              (\<lambda>b. b\<lparr>ban_isActive := False, ban_revokedBy := Some revokedBy,
                                      ban_revokedAt := Some now,
                                      ban_revokeReason := Some revokeReason\<rparr>)
                              (bans st)\<rparr>
                in if \<not> okUser then (False, st1)
                   else
                     (let st2 = st1\<lparr>users :=
                                  updateNode emptyUserNode userId
                                    (\<lambda>u. u\<lparr>u_status := Some active\<rparr>) (users st1)\<rparr>
                      in (True, logActivity okLog logNow revokedBy user_reported
                                  (user_unbanned userId revokeReason) st2)))))"

text \<open>
  The records of the collection \<open>bans\<close> of one user with \<open>isActive = true\<close>, and
  the invariant that no user has two of them. Both are about the collection \<open>bans\<close>
  only, which is where \<open>unbanUser\<close> looks for the active ban.
\<close>

definition activeBans :: "Store \<Rightarrow> string \<Rightarrow> (string \<times> BanRecord) list" where
  "activeBans st uid = filter (\<lambda>(_, ban). ban_userId ban = uid \<and> ban_isActive ban) (bans st)"

definition atMostOneActiveBan :: "Store \<Rightarrow> bool" where
  "atMostOneActiveBan st = list_all (\<lambda>(_, ban). length (activeBans st (ban_userId ban)) \<le> 1) (bans st)"

text \<open>
  The copies of a user's ban records that \<open>banUser\<close> writes under
  \<open>users/{uid}/banHistory\<close>, with \<open>isActive = true\<close>.
\<close>

definition activeHistory :: "Store \<Rightarrow> string \<Rightarrow> (string \<times> BanRecord) list" where
  "activeHistory st uid =
     filter (\<lambda>(_, ban). ban_isActive ban)
       (case map_of (users st) uid of None \<Rightarrow> [] | Some u \<Rightarrow> u_banHistory u)"

text \<open>
  The stores reached from the empty one by calls of \<open>unbanUser\<close>, and by calls of
  \<open>banUser\<close> for a user who has no active record in \<open>bans\<close> at the call.
\<close>

inductive guardedReachable :: "Store \<Rightarrow> bool" where
  start: "guardedReachable emptyStore"
| ban: "guardedReachable st \<Longrightarrow> activeBans st userId = [] \<Longrightarrow>
        guardedReachable
          (snd (banUser okBan okUser okLog banId now logNow userId bannedBy reason type duration st))"
| unban: "guardedReachable st \<Longrightarrow>
        guardedReachable
          (snd (unbanUser okGet okBan okUser okLog now logNow userId revokedBy revokeReason st))"

section \<open>Analytics (the analytics and reporting utility, class \<open>AnalyticsManager\<close>)\<close>

text \<open>
  Numbers that the code divides are rationals here, with exact arithmetic; counts are
  naturals, timestamps (milliseconds) integers. \<open>NaN\<close> and the infinities have no
  counterpart: every division of the functions below that is modelled has a divisor the
  code has checked to be positive.
\<close>

text \<open>\<open>str.split(/\s+/)\<close>: the pieces between the runs of white space.\<close>

function splitWhitespace_from :: "string \<Rightarrow> string \<Rightarrow> string list" where
  "splitWhitespace_from cur [] = [rev cur]"
| "splitWhitespace_from cur (c # cs) =
     (if isWhiteSpace c then rev cur # splitWhitespace_from [] (dropWhile isWhiteSpace cs)
      else splitWhitespace_from (c # cur) cs)"
  by pat_completeness auto
termination
  by (relation "measure (\<lambda>(cur, cs). length cs)")
     (auto simp: less_Suc_eq_le length_dropWhile_le)

definition splitWhitespace :: "string \<Rightarrow> string list" where
  "splitWhitespace str = splitWhitespace_from [] str"

subsection \<open>The order of \<open>Object.entries\<close>\<close>

text \<open>
  The code counts and groups in objects used as dictionaries, and lists them with
  \<open>Object.entries\<close>: the keys that are array indices first, in ascending order, then
  the other keys in the order in which they were first set.
\<close>

definition digitValue :: "char \<Rightarrow> int" where
  "digitValue c = int (length (takeWhile (\<lambda>d. d \<noteq> c) digitChars))"

definition decimalValue :: "string \<Rightarrow> int" where
  "decimalValue str = foldl (\<lambda>n c. 10 * n + digitValue c) 0 str"

definition isArrayIndex :: "string \<Rightarrow> bool" where
  "isArrayIndex k =
     (k \<noteq> [] \<and> list_all (\<lambda>c. c \<in> set digitChars) k \<and> (k = ''0'' \<or> hd k \<noteq> CHR ''0'')
      \<and> length k \<le> 10 \<and> decimalValue k < 4294967295)"

definition objectEntries :: "(string \<times> 'v) list \<Rightarrow> (string \<times> 'v) list" where
  "objectEntries al =
     sort_key (\<lambda>(k, _). decimalValue k) (filter (\<lambda>(k, _). isArrayIndex k) al)
     @ filter (\<lambda>(k, _). \<not> isArrayIndex k) al"

text \<open>The distinct elements of a list, in the order of their first occurrence.\<close>

definition firstOccurrences :: "'a list \<Rightarrow> 'a list" where
  "firstOccurrences xs = rev (remdups (rev xs))"

text \<open>
  \<open>counts[k] = (counts[k] || 0) + 1\<close> for each key of a list, then \<open>Object.entries\<close>.
  The keys that name a member of every object (\<open>constructor\<close>, \<open>__proto__\<close>), on
  which the counter of the source does not count, are outside this model.
\<close>

definition countEntries :: "string list \<Rightarrow> (string \<times> nat) list" where
  "countEntries ks = objectEntries (map (\<lambda>k. (k, count_list ks k)) (firstOccurrences ks))"

text \<open>\<open>entries.sort(([,a], [,b]) => b - a)\<close>: by descending count, stable.\<close>

definition sortByCountDesc :: "('k \<times> nat) list \<Rightarrow> ('k \<times> nat) list" where
  "sortByCountDesc es = sort_key (\<lambda>(_, c). - int c) es"

subsection \<open>Sentiment and keywords\<close>

definition positiveWords :: "string list" where
  "positiveWords = [''good'', ''great'', ''awesome'', ''excellent'', ''love'', ''like'', ''happy'',
                    ''amazing'', ''wonderful'', ''fantastic'']"

definition negativeWords :: "string list" where
  "negativeWords = [''bad'', ''terrible'', ''awful'', ''hate'', ''dislike'', ''sad'', ''angry'',
                    ''horrible'', ''disgusting'', ''annoying'']"

record Sentiment =
  s_score :: int
  s_comparative :: rat
  s_positive :: "string list"
  s_negative :: "string list"

text \<open>\<open>AnalyticsManager.analyzeSentiment\<close>\<close>

definition analyzeSentiment :: "string \<Rightarrow> Sentiment" where
  "analyzeSentiment txt =
     (let words = splitWhitespace (toLowerCase txt);
          pos = filter (\<lambda>word. word \<in> set positiveWords) words;
          neg = filter (\<lambda>word. word \<in> set negativeWords) words;
          score = int (length pos) - int (length neg)
      in \<lparr>s_score = score,
          s_comparative = (if length words > 0 then of_int score / of_nat (length words) else 0),
          s_positive = pos,
          s_negative = neg\<rparr>)"

definition stopWords :: "string list" where
  "stopWords =
    [''the'', ''is'', ''at'', ''which'', ''on'', ''and'', ''a'', ''to'', ''are'', ''as'', ''was'', ''were'',
     ''been'', ''be'', ''have'', ''has'', ''had'', ''do'', ''does'', ''did'', ''will'', ''would'', ''could'',
     ''should'', ''may'', ''might'', ''must'', ''can'', ''shall'', ''of'', ''in'', ''for'', ''with'', ''by'',
     ''from'', ''up'', ''about'', ''into'', ''through'', ''during'', ''before'', ''after'', ''above'',
     ''below'', ''between'', ''among'', ''under'', ''over'', ''out'', ''off'', ''down'', ''than'', ''but'',
     ''or'', ''nor'', ''so'', ''yet'', ''if'', ''then'', ''else'', ''when'', ''where'', ''why'', ''how'',
     ''what'', ''who'', ''whom'', ''whose'', ''which'', ''that'', ''this'', ''these'', ''those'', ''i'',
     ''you'', ''he'', ''she'', ''it'', ''we'', ''they'', ''me'', ''him'', ''her'', ''us'', ''them'', ''my'',
     ''your'', ''his'', ''its'', ''our'', ''their'']"

text \<open>
  \<open>AnalyticsManager.extractKeywords\<close>: lower case, without the characters that are
  neither of a word nor white space (\<^verbatim>\<open>replace(/[^\w\s]/g, '')\<close>), split, and
  filtered.
\<close>

definition extractKeywords :: "string \<Rightarrow> string list" where
  "extractKeywords txt =
     filter (\<lambda>word. length word > 2 \<and> word \<notin> set stopWords)
       (splitWhitespace (filter (\<lambda>c. isWordChar c \<or> isWhiteSpace c) (toLowerCase txt)))"

subsection \<open>The risk score\<close>

text \<open>The interface \<open>UserBehaviorMetrics\<close>, and \<open>Partial<UserBehaviorMetrics>\<close>.\<close>

record UserBehaviorMetrics =
  ubm_userId :: string
  ubm_email :: "string option"
  ubm_displayName :: "string option"
  ubm_totalMessages :: nat
  ubm_averageMessageLength :: rat
  ubm_averageWordsPerMessage :: rat
  ubm_messagesPerHour :: rat
  ubm_peakActivityHours :: "nat list"
  ubm_sentimentTrend :: "(string \<times> rat) list"
  ubm_flaggedMessageRatio :: rat
  ubm_responseTimeAvg :: rat
  ubm_topKeywords :: "(string \<times> nat) list"
  ubm_riskScore :: int
  ubm_lastActivity :: int

record PartialUserBehaviorMetrics =
  p_userId :: "string option"
  p_email :: "string option"
  p_displayName :: "string option"
  p_totalMessages :: "nat option"
  p_averageMessageLength :: "rat option"
  p_averageWordsPerMessage :: "rat option"
  p_messagesPerHour :: "rat option"
  p_peakActivityHours :: "nat list option"
  p_sentimentTrend :: "(string \<times> rat) list option"
  p_flaggedMessageRatio :: "rat option"
  p_responseTimeAvg :: "rat option"
  p_topKeywords :: "(string \<times> nat) list option"
  p_riskScore :: "int option"
  p_lastActivity :: "int option"

definition partialOf :: "UserBehaviorMetrics \<Rightarrow> PartialUserBehaviorMetrics" where
  "partialOf m =
     \<lparr>p_userId = Some (ubm_userId m), p_email = ubm_email m, p_displayName = ubm_displayName m,
      p_totalMessages = Some (ubm_totalMessages m),
      p_averageMessageLength = Some (ubm_averageMessageLength m),
      p_averageWordsPerMessage = Some (ubm_averageWordsPerMessage m),
      p_messagesPerHour = Some (ubm_messagesPerHour m),
      p_peakActivityHours = Some (ubm_peakActivityHours m),
      p_sentimentTrend = Some (ubm_sentimentTrend m),
      p_flaggedMessageRatio = Some (ubm_flaggedMessageRatio m),
      p_responseTimeAvg = Some (ubm_responseTimeAvg m),
      p_topKeywords = Some (ubm_topKeywords m),
      p_riskScore = Some (ubm_riskScore m),
      p_lastActivity = Some (ubm_lastActivity m)\<rparr>"

text \<open>
  \<open>x && x > c\<close> and \<open>x && x < c\<close> on an optional number: \<open>x\<close> counts when it is
  there and is not 0.
\<close>

definition andGreater :: "rat option \<Rightarrow> rat \<Rightarrow> bool" where
  "andGreater x c = (case x of None \<Rightarrow> False | Some v \<Rightarrow> v \<noteq> 0 \<and> v > c)"

definition andLess :: "rat option \<Rightarrow> rat \<Rightarrow> bool" where
  "andLess x c = (case x of None \<Rightarrow> False | Some v \<Rightarrow> v \<noteq> 0 \<and> v < c)"

text \<open>The average of \<open>sentimentTrend\<close> as \<open>calculateRiskScore\<close> takes it.\<close>

definition avgSentimentOf :: "PartialUserBehaviorMetrics \<Rightarrow> rat" where
  "avgSentimentOf userBehavior =
     (case p_sentimentTrend userBehavior of
        None \<Rightarrow> 0
      | Some trend \<Rightarrow>
          if length trend > 0
          then foldl (\<lambda>sum item. sum + snd item) 0 trend / of_nat (length trend)
          else 0)"

text \<open>\<open>AnalyticsManager.calculateRiskScore\<close>\<close>

definition calculateRiskScore :: "PartialUserBehaviorMetrics \<Rightarrow> int" where
  "calculateRiskScore userBehavior =
     (let riskScore = 0;
          riskScore = (if andGreater (p_messagesPerHour userBehavior) 10
                       then riskScore + 20 else riskScore);
          riskScore = (if andGreater (p_flaggedMessageRatio userBehavior) (1 / 10)
                       then riskScore + 30 else riskScore);
          avgSentiment = avgSentimentOf userBehavior;
          riskScore = (if avgSentiment < - (1 / 2) then riskScore + 25 else riskScore);
          riskScore = (if andLess (p_responseTimeAvg userBehavior) 5000
                       then riskScore + 15 else riskScore);
          riskScore = (if andLess (p_averageMessageLength userBehavior) 10
                       then riskScore + 10 else riskScore)
      in min riskScore 100)"

subsection \<open>The behaviour of one user\<close>

text \<open>
  What the code asks of \<open>Date\<close>: the local hour of a timestamp
  (\<open>new Date(t).getHours()\<close>), and the date string of the start of its week
  (\<open>setDate(getDate() - getDay())\<close>, then \<open>toISOString().split('T')[0]\<close>).
\<close>

record Platform =
  getHours :: "int \<Rightarrow> nat"
  weekKey :: "int \<Rightarrow> string"

definition avg :: "rat list \<Rightarrow> rat" where
  "avg xs = foldl (\<lambda>sum x. sum + x) 0 xs / of_nat (length xs)"

text \<open>
  \<open>AnalyticsManager.analyzeUserBehavior\<close>. \<open>okGet\<close> is the outcome of the three reads,
  \<open>now\<close> is \<open>Date.now()\<close>. The result \<open>None\<close> is the source's \<open>null\<close>: a failed
  read is caught and gives \<open>null\<close> too.
\<close>

definition analyzeUserBehavior ::
  "Platform \<Rightarrow> bool \<Rightarrow> int \<Rightarrow> string \<Rightarrow> int \<Rightarrow> Store \<Rightarrow> UserBehaviorMetrics option" where
  "analyzeUserBehavior pf okGet now userId days st =
     (if \<not> okGet then None
      else
        (case map_of (users st) userId of
           None \<Rightarrow> None
         | Some user \<Rightarrow>
            (let userMessages =
                   sort_key m_timestamp
                     (filter (\<lambda>msg. m_userId msg = Some userId
                                   \<and> m_timestamp msg > now - days * 24 * 60 * 60 * 1000)
                        (map snd (messages st)));
                 lastActivity = (case u_lastActive user of None \<Rightarrow> 0 | Some t \<Rightarrow> t)
             in if length userMessages = 0 then
                  Some \<lparr>ubm_userId = userId, ubm_email = u_email user,
                        ubm_displayName = u_displayName user,
                        ubm_totalMessages = 0, ubm_averageMessageLength = 0,
                        ubm_averageWordsPerMessage = 0, ubm_messagesPerHour = 0,
                        ubm_peakActivityHours = [], ubm_sentimentTrend = [],
                        ubm_flaggedMessageRatio = 0, ubm_responseTimeAvg = 0,
                        ubm_topKeywords = [], ubm_riskScore = 0,
                        ubm_lastActivity = lastActivity\<rparr>
                else
                  (let totalMessages = length userMessages;
                       totalLength = foldl (\<lambda>sum msg. sum + length (m_text msg)) 0 userMessages;
                       totalWords = foldl (\<lambda>sum msg. sum + length (splitWhitespace (m_text msg))) 0 userMessages;
                       averageMessageLength = of_nat totalLength / of_nat totalMessages;
                       averageWordsPerMessage = of_nat totalWords / of_nat totalMessages;
                       timeSpan = m_timestamp (last userMessages) - m_timestamp (hd userMessages);
                       messagesPerHour =
                         (if timeSpan > 0
                          then of_nat totalMessages / (of_int timeSpan / (1000 * 60 * 60)) else 0);
                       hours = map (\<lambda>msg. getHours pf (m_timestamp msg)) userMessages;
                       hourCounts = map (\<lambda>h. (h, count_list hours h)) (sort (remdups hours));
                       peakActivityHours = map fst (take 3 (sortByCountDesc hourCounts));
                       weekKeys = map (\<lambda>msg. weekKey pf (m_timestamp msg)) userMessages;
                       weekBuckets =
                         map (\<lambda>k. (k, map (\<lambda>msg. s_comparative (analyzeSentiment (m_text msg)))
                                         (filter (\<lambda>msg. weekKey pf (m_timestamp msg) = k) userMessages)))
                             (firstOccurrences weekKeys);
                       sentimentTrend = map (\<lambda>(date, sentiments). (date, avg sentiments))
                                            (objectEntries weekBuckets);
                       userFlaggedMessages =
                         filter (\<lambda>flag. fn_userId flag = Some userId) (map snd (flaggedMessages st));
                       flaggedMessageRatio = of_nat (length userFlaggedMessages) / of_nat totalMessages;
                       responseTimes =
                         filter (\<lambda>timeDiff. timeDiff < 5 * 60 * 1000)
                           (map (\<lambda>(a, b). m_timestamp b - m_timestamp a)
                                (zip userMessages (tl userMessages)));
                       responseTimeAvg =
                         (if length responseTimes > 0 then avg (map of_int responseTimes) else 0);
                       allKeywords = concat (map (\<lambda>msg. extractKeywords (m_text msg)) userMessages);
                       topKeywords = take 10 (sortByCountDesc (countEntries allKeywords));
                       userBehavior =
                         \<lparr>ubm_userId = userId, ubm_email = u_email user,
                          ubm_displayName = u_displayName user,
                          ubm_totalMessages = totalMessages,
                          ubm_averageMessageLength = averageMessageLength,
                          ubm_averageWordsPerMessage = averageWordsPerMessage,
                          ubm_messagesPerHour = messagesPerHour,
                          ubm_peakActivityHours = peakActivityHours,
                          ubm_sentimentTrend = sentimentTrend,
                          ubm_flaggedMessageRatio = flaggedMessageRatio,
                          ubm_responseTimeAvg = responseTimeAvg,
                          ubm_topKeywords = topKeywords,
                          ubm_riskScore = 0,
                          ubm_lastActivity = lastActivity\<rparr>
                   in Some (userBehavior\<lparr>ubm_riskScore := calculateRiskScore (partialOf userBehavior)\<rparr>)))))"

subsection \<open>Moderation effectiveness\<close>

record ModeratorPerformance =
  mp_moderatorId :: string
  mp_email :: string
  mp_reviewCount :: nat
  mp_avgReviewTime :: rat
  mp_accuracyRate :: rat

record RuleEffectiveness =
  re_ruleId :: string
  re_ruleName :: string
  re_triggeredCount :: nat
  re_correctFlags :: nat
  re_falsePositives :: nat
  re_effectiveness :: rat

record ModerationEffectiveness =
  totalReviews :: nat
  avgReviewTime :: rat
  accuracyRate :: rat
  falsePositiveRate :: rat
  missedViolations :: nat
  moderatorPerformance :: "ModeratorPerformance list"
  ruleEffectiveness :: "RuleEffectiveness list"

text \<open>
  The flags the calculation looks at: \<open>flag.flaggedAt > cutoffTime && flag.reviewed\<close>.
\<close>

definition recentReviewed :: "int \<Rightarrow> int \<Rightarrow> Store \<Rightarrow> FlagNode list" where
  "recentReviewed now days st =
     (let cutoffTime = now - days * 24 * 60 * 60 * 1000
      in filter (\<lambda>flag. (case fn_flaggedAt flag of None \<Rightarrow> False | Some t \<Rightarrow> t > cutoffTime)
                        \<and> fn_reviewed flag = Some True)
           (map snd (flaggedMessages st)))"

text \<open>
  \<open>flag.reviewedAt - flag.flaggedAt\<close> for the flags with
  \<open>flag.reviewedAt && flag.flaggedAt\<close>.
\<close>

definition reviewTimeOf :: "FlagNode \<Rightarrow> int option" where
  "reviewTimeOf flag =
     (case (fn_reviewedAt flag, fn_flaggedAt flag) of
        (Some r, Some f) \<Rightarrow> if r \<noteq> 0 \<and> f \<noteq> 0 then Some (r - f) else None
      | _ \<Rightarrow> None)"

definition avgMinutes :: "int list \<Rightarrow> rat" where
  "avgMinutes reviewTimes =
     (if length reviewTimes > 0
      then of_int (foldl (\<lambda>sum time. sum + time) 0 reviewTimes) / of_nat (length reviewTimes) / (1000 * 60)
      else 0)"

fun reasonName :: "FlagReason \<Rightarrow> string" where
  "reasonName profanity = ''profanity''"
| "reasonName spam = ''spam''"
| "reasonName harassment = ''harassment''"
| "reasonName inappropriate = ''inappropriate''"
| "reasonName manual = ''manual''"

text \<open>\<open>flag.flagReason || 'unknown'\<close>\<close>

definition ruleIdOf :: "FlagNode \<Rightarrow> string" where
  "ruleIdOf flag = (case fn_flagReason flag of None \<Rightarrow> ''unknown'' | Some r \<Rightarrow> reasonName r)"

text \<open>The reviewer of a flag with \<open>if (flag.reviewedBy)\<close>: there, and not the empty string.\<close>

definition reviewerOf :: "FlagNode \<Rightarrow> string option" where
  "reviewerOf flag = (case fn_reviewedBy flag of None \<Rightarrow> None | Some m \<Rightarrow> if m = [] then None else Some m)"

text \<open>
  \<open>AnalyticsManager.analyzeModerationEffectiveness\<close>. \<open>okGet\<close> is the outcome of the
  read; on a failed read the source throws again, which is \<open>None\<close> here.
\<close>

definition analyzeModerationEffectiveness ::
  "bool \<Rightarrow> int \<Rightarrow> int \<Rightarrow> Store \<Rightarrow> ModerationEffectiveness option" where
  "analyzeModerationEffectiveness okGet now days st =
     (if \<not> okGet then None
      else
        (let recentFlagged = recentReviewed now days st;
             totalReviews = length recentFlagged;
             avgReviewTime = avgMinutes (List.map_filter reviewTimeOf recentFlagged);
             correctFlags = length (filter (\<lambda>flag. fn_action flag = Some deleted) recentFlagged);
             incorrectFlags = length (filter (\<lambda>flag. fn_action flag = Some approved) recentFlagged);
             accuracyRate = (if totalReviews > 0
                             then (of_nat correctFlags / of_nat totalReviews) * 100 else 0);
             falsePositiveRate = (if totalReviews > 0
                                  then (of_nat incorrectFlags / of_nat totalReviews) * 100 else 0);
             moderatorStats =
               map (\<lambda>m. (m, filter (\<lambda>flag. reviewerOf flag = Some m) recentFlagged))
                   (firstOccurrences (List.map_filter reviewerOf recentFlagged));
             moderatorPerformance =
               map (\<lambda>(moderatorId, flags).
                      \<lparr>mp_moderatorId = moderatorId,
                       mp_email = ''moderator@example.com'',
                       mp_reviewCount = length flags,
                       mp_avgReviewTime = avgMinutes (List.map_filter reviewTimeOf flags),
                       mp_accuracyRate =
                         (if length flags > 0
                          then (of_nat (length (filter (\<lambda>flag. fn_action flag = Some deleted) flags))
                                / of_nat (length flags)) * 100
                          else 0)\<rparr>)
                   (objectEntries moderatorStats);
             ruleStats =
               map (\<lambda>r. (r, filter (\<lambda>flag. ruleIdOf flag = r) recentFlagged))
                   (firstOccurrences (map ruleIdOf recentFlagged));
             ruleEffectiveness =
               map (\<lambda>(ruleId, flags).
                      (let correct = length (filter (\<lambda>flag. fn_action flag = Some deleted) flags)
                       in \<lparr>re_ruleId = ruleId,
                           re_ruleName = (case ruleId of [] \<Rightarrow> [] | c # cs \<Rightarrow> toUpperCase_char c # cs),
                           re_triggeredCount = length flags,
                           re_correctFlags = correct,
                           re_falsePositives = length (filter (\<lambda>flag. fn_action flag = Some approved) flags),
                           re_effectiveness =
                             (if length flags > 0
                              then (of_nat correct / of_nat (length flags)) * 100 else 0)\<rparr>))
                   (objectEntries ruleStats)
         in Some \<lparr>totalReviews = totalReviews,
                  avgReviewTime = avgReviewTime,
                  accuracyRate = accuracyRate,
                  falsePositiveRate = falsePositiveRate,
                  missedViolations = 0,
                  moderatorPerformance = moderatorPerformance,
                  ruleEffectiveness = ruleEffectiveness\<rparr>))"

section \<open>The wording of the specification\<close>

text \<open>
  The risk score as the specification words it: each signal that holds adds its weight, a
  signal holds when its value is there and on the stated side of its threshold, and the sum
  is capped at 100.
\<close>

definition signalAbove :: "rat option \<Rightarrow> rat \<Rightarrow> bool" where
  "signalAbove x c = (case x of None \<Rightarrow> False | Some v \<Rightarrow> v > c)"

definition signalBelow :: "rat option \<Rightarrow> rat \<Rightarrow> bool" where
  "signalBelow x c = (case x of None \<Rightarrow> False | Some v \<Rightarrow> v < c)"

definition riskScore_spec :: "PartialUserBehaviorMetrics \<Rightarrow> int" where
  "riskScore_spec m =
     min 100
       ((if signalAbove (p_messagesPerHour m) 10 then 20 else 0)
        + (if signalAbove (p_flaggedMessageRatio m) (1 / 10) then 30 else 0)
        + (if avgSentimentOf m < - (1 / 2) then 25 else 0)
        + (if signalBelow (p_responseTimeAvg m) 5000 then 15 else 0)
        + (if signalBelow (p_averageMessageLength m) 10 then 10 else 0))"

text \<open>The partial record with no field.\<close>

definition noMetrics :: PartialUserBehaviorMetrics where
  "noMetrics =
     \<lparr>p_userId = None, p_email = None, p_displayName = None, p_totalMessages = None,
      p_averageMessageLength = None, p_averageWordsPerMessage = None,
      p_messagesPerHour = None, p_peakActivityHours = None, p_sentimentTrend = None,
      p_flaggedMessageRatio = None, p_responseTimeAvg = None, p_topKeywords = None,
      p_riskScore = None, p_lastActivity = None\<rparr>"

text \<open>The five signals as the code tests them.\<close>

definition triggers :: "PartialUserBehaviorMetrics \<Rightarrow> bool list" where
  "triggers m =
     [andGreater (p_messagesPerHour m) 10,
      andGreater (p_flaggedMessageRatio m) (1 / 10),
      avgSentimentOf m < - (1 / 2),
      andLess (p_responseTimeAvg m) 5000,
      andLess (p_averageMessageLength m) 10]"

text \<open>
  The reviewed flags of the window that were deleted, and those that were approved.
\<close>

definition deletedCount :: "int \<Rightarrow> int \<Rightarrow> Store \<Rightarrow> nat" where
  "deletedCount now days st =
     length (filter (\<lambda>flag. fn_action flag = Some deleted) (recentReviewed now days st))"

definition approvedCount :: "int \<Rightarrow> int \<Rightarrow> Store \<Rightarrow> nat" where
  "approvedCount now days st =
     length (filter (\<lambda>flag. fn_action flag = Some approved) (recentReviewed now days st))"

text \<open>Stores for the examples below.\<close>

definition reviewedFlag :: "ReviewAction \<Rightarrow> FlagNode" where
  "reviewedFlag act =
     emptyFlagNode\<lparr>fn_flaggedAt := Some 1000, fn_reviewed := Some True,
                    fn_reviewedBy := Some ''mod1'', fn_reviewedAt := Some 1500,
                    fn_action := Some act\<rparr>"

definition store_deleted_edited :: Store where
  "store_deleted_edited =
     emptyStore\<lparr>flaggedMessages := [(''m1'', reviewedFlag deleted), (''m2'', reviewedFlag edited)]\<rparr>"

definition store_deleted_approved :: Store where
  "store_deleted_approved =
     emptyStore\<lparr>flaggedMessages := [(''m1'', reviewedFlag deleted), (''m2'', reviewedFlag approved)]\<rparr>"

definition store_one_message :: Store where
  "store_one_message =
     emptyStore\<lparr>messages := [(''m1'', \<lparr>m_text = ''hi there'', m_user = ''Ann'',
                                       m_userId = Some ''u1'', m_timestamp = 1000\<rparr>)],
                 flaggedMessages := [(''m1'', emptyFlagNode\<lparr>fn_id := Some ''m1'', fn_reviewed := Some False\<rparr>)],
                 users := [(''u1'', emptyUserNode\<lparr>u_email := Some ''ann@example.com'',
                                                  u_lastActive := Some 1000\<rparr>)]\<rparr>"

definition platform0 :: Platform where
  "platform0 = \<lparr>getHours = (\<lambda>t. 0), weekKey = (\<lambda>t. ''1970-01-01'')\<rparr>"

section \<open>Properties\<close>

subsection \<open>Evaluation of the case mappings\<close>

text \<open>The two case mappings on the bits of a character, for evaluation.\<close>

lemma toUpperCase_char_code [code]:
  "toUpperCase_char (Char b0 b1 b2 b3 b4 b5 b6 b7) =
     (if b5 \<and> b6 \<and> (if b7 then \<not> (b0 \<and> b1 \<and> b2 \<and> b4)
                       else (b0 \<or> b1 \<or> b2 \<or> b3 \<or> b4) \<and> \<not> (b4 \<and> b3 \<and> (b2 \<or> (b1 \<and> b0))))
      then Char b0 b1 b2 b3 b4 False b6 b7 else Char b0 b1 b2 b3 b4 b5 b6 b7)"
  by (cases b0; cases b1; cases b2; cases b3; cases b4; cases b5; cases b6; cases b7;
      simp add: toUpperCase_char_def char_of_eq_iff)

lemma toLowerCase_char_code [code]:
  "toLowerCase_char (Char b0 b1 b2 b3 b4 b5 b6 b7) =
     (if \<not> b5 \<and> b6 \<and> (if b7 then \<not> (b0 \<and> b1 \<and> b2 \<and> b4)
                       else (b0 \<or> b1 \<or> b2 \<or> b3 \<or> b4) \<and> \<not> (b4 \<and> b3 \<and> (b2 \<or> (b1 \<and> b0))))
      then Char b0 b1 b2 b3 b4 True b6 b7 else Char b0 b1 b2 b3 b4 b5 b6 b7)"
  by (cases b0; cases b1; cases b2; cases b3; cases b4; cases b5; cases b6; cases b7;
      simp add: toLowerCase_char_def char_of_eq_iff)

subsection \<open>The matcher reads forward\<close>

text \<open>
  Every result of a matcher is over the same input and not behind its start. So the test
  of the quantifier, "less input ahead than at the start of the round", is the test "the
  round does not end at the index where it started".
\<close>

lemma reads_on_refl [simp]: "reads_on s s"
  by (simp add: reads_on_def)

lemma reads_on_trans: "reads_on s y \<Longrightarrow> reads_on y z \<Longrightarrow> reads_on s z"
  by (simp add: reads_on_def)

lemma reads_on_caps [simp]:
  "reads_on (s\<lparr>caps := c\<rparr>) y = reads_on s y"
  "reads_on s (y\<lparr>caps := c\<rparr>) = reads_on s y"
  by (simp_all add: reads_on_def)

lemma reads_on_advance: "n \<le> length (rest s) \<Longrightarrow> reads_on s (advance n s)"
  by (simp add: reads_on_def advance_def)

lemma RepeatMatcher_reads_on:
  "(\<And>s y. y \<in> set (m s) \<Longrightarrow> reads_on s y) \<Longrightarrow>
     y \<in> set (RepeatMatcher m gs mn mx greedy s) \<Longrightarrow> reads_on s y"
proof (induction m gs mn mx greedy s arbitrary: y rule: RepeatMatcher.induct)
  case (1 m gs mn mx greedy s)
  let ?s0 = "s\<lparr>caps := filter (\<lambda>(k, _). k \<notin> set gs) (caps s)\<rparr>"
  let ?F = "filter (\<lambda>y. length (rest y) < length (rest s)) (m ?s0)"
  let ?mx = "map_option (\<lambda>k. k - 1) mx"
  have unf: "RepeatMatcher m gs mn mx greedy s =
     (if mx = Some 0 then [s]
      else if mn \<noteq> 0 then concat (map (\<lambda>y. RepeatMatcher m gs (mn - 1) ?mx greedy y) (m ?s0))
      else if greedy then concat (map (\<lambda>y. RepeatMatcher m gs 0 ?mx greedy y) ?F) @ [s]
      else s # concat (map (\<lambda>y. RepeatMatcher m gs 0 ?mx greedy y) ?F))"
    by (rule RepeatMatcher.simps)
  have step: "reads_on s z" if "z \<in> set (m ?s0)" for z
  proof -
    have "reads_on ?s0 z"
      using that by (rule "1.prems"(1))
    then show ?thesis
      by simp
  qed
  show ?case
  proof (cases "mx = Some 0")
    case True
    have "RepeatMatcher m gs mn mx greedy s = [s]"
      by (subst unf) (simp only: True if_True simp_thms)
    with "1.prems"(2) show ?thesis
      by simp
  next
    case nz: False
    show ?thesis
    proof (cases "mn \<noteq> 0")
      case True
      have "RepeatMatcher m gs mn mx greedy s
              = concat (map (\<lambda>y. RepeatMatcher m gs (mn - 1) ?mx greedy y) (m ?s0))"
        by (subst unf) (simp only: nz True if_True if_False simp_thms)
      with "1.prems"(2) obtain z where z: "z \<in> set (m ?s0)"
        and y: "y \<in> set (RepeatMatcher m gs (mn - 1) ?mx greedy z)"
        by (simp only: set_concat set_map) blast
      have "reads_on z y"
        using nz True z "1.prems"(1) y by (rule "1.IH"(1))
      with step [OF z] show ?thesis
        by (rule reads_on_trans)
    next
      case mn0: False
      have "set (RepeatMatcher m gs mn mx greedy s)
              = insert s (set (concat (map (\<lambda>y. RepeatMatcher m gs 0 ?mx greedy y) ?F)))"
        by (subst unf, cases greedy) (simp_all only: nz mn0 if_True if_False simp_thms set_append set_simps Un_insert_right Un_empty_right)
      with "1.prems"(2) consider "y = s"
        | z where "z \<in> set ?F" "y \<in> set (RepeatMatcher m gs 0 ?mx greedy z)"
        by (simp only: set_concat set_map) blast
      then show ?thesis
      proof cases
        case 1
        then show ?thesis by simp
      next
        case 2
        have zs: "reads_on s z"
          using 2(1) step by simp
        have "reads_on z y"
        proof (cases greedy)
          case True
          show ?thesis
            using nz mn0 True 2(1) "1.prems"(1) 2(2) by (rule "1.IH"(2))
        next
          case False
          show ?thesis
            using nz mn0 False 2(1) "1.prems"(1) 2(2) by (rule "1.IH"(3))
        qed
        with zs show ?thesis
          by (rule reads_on_trans)
      qed
    qed
  qed
qed

lemma run_reads_on: "y \<in> set (run ic r s) \<Longrightarrow> reads_on s y"
proof (induction r arbitrary: s y)
  case Empty
  then show ?case by simp
next
  case (Chr a)
  then show ?case
    by (cases "rest s") (auto simp: CharacterSetMatcher_def Let_def reads_on_advance split: if_splits)
next
  case Dot
  then show ?case
    by (cases "rest s") (auto simp: DotMatcher_def reads_on_advance split: if_splits)
next
  case (Class inv A)
  then show ?case
    by (cases "rest s") (auto simp: CharacterSetMatcher_def Let_def reads_on_advance split: if_splits)
next
  case (Seq r1 r2)
  from Seq.prems obtain x where "x \<in> set (run ic r1 s)" "y \<in> set (run ic r2 x)"
    by auto
  then have "reads_on s x" "reads_on x y"
    using Seq.IH by blast+
  then show ?case
    by (rule reads_on_trans)
next
  case (Alt r1 r2)
  then show ?case by auto
next
  case (Group n r)
  then show ?case
    by (auto simp: capture_def)
next
  case (Backref n)
  then show ?case
    by (auto simp: BackreferenceMatcher_def reads_on_advance split: option.splits if_splits)
next
  case (Rep mn mx greedy r)
  from Rep.prems have "y \<in> set (RepeatMatcher (run ic r) (groups r) mn mx greedy s)"
    by simp
  then show ?case
    by (rule RepeatMatcher_reads_on [rotated]) (rule Rep.IH)
next
  case Bol
  then show ?case by (auto split: if_splits)
next
  case Eol
  then show ?case by (auto split: if_splits)
next
  case WordB
  then show ?case
    by (auto simp: WordBoundary_def Let_def split: if_splits)
qed

lemma reads_on_endIndex:
  assumes "reads_on s y"
  shows "length (rest y) < length (rest s) \<longleftrightarrow> endIndex y \<noteq> endIndex s"
proof -
  have "length (seen y) + length (rest y) = length (seen s) + length (rest s)"
    using assms unfolding reads_on_def by (metis length_append length_rev)
  moreover have "length (rest y) \<le> length (rest s)"
    using assms by (simp add: reads_on_def)
  ultimately show ?thesis
    by (auto simp: endIndex_def)
qed

lemma empty_check_is_endIndex:
  "filter (\<lambda>y. length (rest y) < length (rest s)) (run ic r (s\<lparr>caps := c\<rparr>))
   = filter (\<lambda>y. endIndex y \<noteq> endIndex s) (run ic r (s\<lparr>caps := c\<rparr>))"
proof (rule filter_cong [OF refl])
  fix y
  assume "y \<in> set (run ic r (s\<lparr>caps := c\<rparr>))"
  then have "reads_on s y"
    using run_reads_on [of y ic r "s\<lparr>caps := c\<rparr>"] by simp
  then show "length (rest y) < length (rest s) \<longleftrightarrow> endIndex y \<noteq> endIndex s"
    by (rule reads_on_endIndex)
qed

subsection \<open>The classifier\<close>

text \<open>
  \<open>includes\<close> is the contiguous-sublist relation, and the loop over a word list finds a
  word exactly when some part of the text is the word up to case.
\<close>

lemma str_includes_sublist: "str_includes s w \<longleftrightarrow> sublist w s"
  by (induction s) (simp_all add: sublist_Cons_right)

lemma sublist_map_iff: "sublist w (map f s) \<longleftrightarrow> (\<exists>u. sublist u s \<and> map f u = w)"
proof
  assume "sublist w (map f s)"
  then obtain u where "sublist u s" "w = map f u"
    using sublist_map_rightE by blast
  then show "\<exists>u. sublist u s \<and> map f u = w"
    by blast
next
  assume "\<exists>u. sublist u s \<and> map f u = w"
  then obtain u where u: "sublist u s" "map f u = w"
    by blast
  then obtain ps ss where s: "s = ps @ u @ ss"
    unfolding sublist_def by blast
  have "map f s = map f ps @ w @ map f ss"
    by (simp add: s u(2))
  then show "sublist w (map f s)"
    by (simp only: sublist_appendI)
qed

lemma includesAny_iff:
  "includesAny (toLowerCase message) words \<longleftrightarrow>
     (\<exists>word \<in> set words. \<exists>u. sublist u message \<and> toLowerCase u = toLowerCase word)"
  unfolding includesAny_def list_ex_iff str_includes_sublist toLowerCase_def sublist_map_iff ..

text \<open>
  A regular expression without the \<open>g\<close> flag gives the same answer whatever its
  \<open>lastIndex\<close>, so the loop over such patterns finds a match exactly when one of them
  matches.
\<close>

lemma test_not_global: "\<not> global re \<Longrightarrow> fst (test re li str) = fst (test re 0 str)"
  by (simp add: test_def)

lemma testAny_iff:
  "\<forall>p \<in> set ps. \<not> global p \<Longrightarrow>
     fst (testAny ps lis message) \<longleftrightarrow> (\<exists>p \<in> set ps. fst (test p 0 message))"
proof (induction ps arbitrary: lis)
  case Nil
  then show ?case by simp
next
  case (Cons p ps)
  let ?li = "case lis of [] \<Rightarrow> 0 | li # _ \<Rightarrow> li"
  have g: "fst (test p ?li message) = fst (test p 0 message)"
    by (rule test_not_global) (use Cons.prems in simp)
  have ih: "fst (testAny ps (tl lis) message) \<longleftrightarrow> (\<exists>p \<in> set ps. fst (test p 0 message))"
    using Cons.IH [of "tl lis"] Cons.prems by simp
  obtain b li' where t: "test p ?li message = (b, li')"
    by (cases "test p ?li message")
  obtain b' lis' where t': "testAny ps (tl lis) message = (b', lis')"
    by (cases "testAny ps (tl lis) message")
  show ?case
    using g ih by (cases b) (simp_all add: t t')
qed

lemma harassment_not_global: "\<forall>p \<in> set HARASSMENT_PATTERNS. \<not> global p"
  by (simp add: HARASSMENT_PATTERNS_def)

text \<open>
  Claim C1. A text that contains a word of the severe-profanity list, up to case, or that one
  of the harassment patterns matches, is auto-deleted (flagged and deleted) with severity
  high, whatever else is in the text and whatever the state of the spam patterns. The reason
  is profanity when a severe word is there (that check comes first), harassment otherwise.
  The call leaves the \<open>lastIndex\<close> values as they were.
\<close>

theorem severe_or_harassment_autoDelete:
  assumes "(\<exists>word \<in> set PROFANITY_severe. \<exists>u. sublist u message \<and> toLowerCase u = toLowerCase word)
           \<or> (\<exists>p \<in> set HARASSMENT_PATTERNS. fst (test p 0 message))"
  shows "shouldFlag (fst (moderateMessage spamIdx message))
       \<and> shouldDelete (fst (moderateMessage spamIdx message))
       \<and> severity (fst (moderateMessage spamIdx message)) = Some high
       \<and> flagReason (fst (moderateMessage spamIdx message))
           = Some (if \<exists>word \<in> set PROFANITY_severe. \<exists>u. sublist u message \<and> toLowerCase u = toLowerCase word
                   then profanity else harassment)
       \<and> snd (moderateMessage spamIdx message) = spamIdx"
proof -
  let ?S = "includesAny (toLowerCase message) PROFANITY_severe"
  let ?H = "fst (testAny HARASSMENT_PATTERNS [] message)"
  have h: "?H \<longleftrightarrow> (\<exists>p \<in> set HARASSMENT_PATTERNS. fst (test p 0 message))"
    by (rule testAny_iff [OF harassment_not_global])
  have s: "(\<exists>word \<in> set PROFANITY_severe. \<exists>u. sublist u message \<and> toLowerCase u = toLowerCase word) \<longleftrightarrow> ?S"
    by (simp only: includesAny_iff)
  from assms have sh: "?S \<or> ?H"
    unfolding s h .
  show ?thesis
  proof (cases ?S)
    case True
    then show ?thesis
      unfolding s by (simp add: moderateMessage_def Let_def)
  next
    case False
    with sh have ?H by simp
    with False show ?thesis
      unfolding s by (simp add: moderateMessage_def Let_def)
  qed
qed

theorem severe_or_harassment_autoDelete_witness:
  "(\<exists>p \<in> set HARASSMENT_PATTERNS. fst (test p 0 ''You  need to KILL yourself''))
   \<and> shouldFlag (fst (moderateMessage [0, 0, 0, 7, 0] ''You  need to KILL yourself''))
   \<and> shouldDelete (fst (moderateMessage [0, 0, 0, 7, 0] ''You  need to KILL yourself''))
   \<and> severity (fst (moderateMessage [0, 0, 0, 7, 0] ''You  need to KILL yourself'')) = Some high
   \<and> flagReason (fst (moderateMessage [0, 0, 0, 7, 0] ''You  need to KILL yourself'')) = Some harassment"
proof -
  have h: "\<exists>p \<in> set HARASSMENT_PATTERNS. fst (test p 0 ''You  need to KILL yourself'')"
    by code_simp
  have n: "\<not> (\<exists>word \<in> set PROFANITY_severe. \<exists>u. sublist u ''You  need to KILL yourself''
                \<and> toLowerCase u = toLowerCase word)"
    unfolding includesAny_iff [symmetric] by code_simp
  show ?thesis
    using severe_or_harassment_autoDelete [OF disjI2 [OF h], of "[0, 0, 0, 7, 0]"] h n
    by simp
qed

text \<open>
  Claim C3. The text \<open>good morning all\<close> has at most 800 characters, contains no word of
  the three profanity lists, matches no harassment pattern, has no run of six equal
  characters, has lower-case letters (so is not an all-caps line), repeats no phrase, embeds
  no URL and has no long digit run. \<open>moderateMessage\<close> does not allow it: the second spam
  pattern, which the source comments as "all caps messages", carries the \<open>i\<close> flag and
  so matches any line of at least 15 letters, white space and exclamation marks, and the
  text is flagged as spam with severity medium.
\<close>

theorem lower_case_line_flagged_as_spam:
  "\<not> includesAny (toLowerCase ''good morning all'') (PROFANITY_severe @ PROFANITY_moderate @ PROFANITY_mild)
   \<and> \<not> fst (testAny HARASSMENT_PATTERNS [] ''good morning all'')
   \<and> length ''good morning all'' \<le> 800
   \<and> \<not> fst (test (SPAM_PATTERNS ! 0) 0 ''good morning all'')
   \<and> list_ex (\<lambda>c. c \<in> set ''abcdefghijklmnopqrstuvwxyz'') ''good morning all''
   \<and> \<not> fst (test (SPAM_PATTERNS ! 2) 0 ''good morning all'')
   \<and> \<not> fst (test (SPAM_PATTERNS ! 3) 0 ''good morning all'')
   \<and> \<not> fst (test (SPAM_PATTERNS ! 4) 0 ''good morning all'')
   \<and> moderateMessage [0, 0, 0, 0, 0] ''good morning all''
       = (\<lparr>shouldFlag = True, shouldDelete = False, flagReason = Some spam, severity = Some medium\<rparr>,
          [0, 0, 0, 0, 0])"
  by code_simp

text \<open>
  What does hold: a text with no word of the lists, that no harassment pattern matches, on
  which the loop over the spam patterns finds nothing, and of at most 800 characters, is
  allowed, with no reason and no severity.
\<close>

lemma allowed_when_nothing_matches:
  assumes "\<not> includesAny (toLowerCase message) (PROFANITY_severe @ PROFANITY_moderate @ PROFANITY_mild)"
    and "\<not> fst (testAny HARASSMENT_PATTERNS [] message)"
    and "\<not> fst (testAny SPAM_PATTERNS spamIdx message)"
    and "length message \<le> 800"
  shows "fst (moderateMessage spamIdx message)
           = \<lparr>shouldFlag = False, shouldDelete = False, flagReason = None, severity = None\<rparr>"
proof -
  obtain b idx' where t: "testAny SPAM_PATTERNS spamIdx message = (b, idx')"
    by (cases "testAny SPAM_PATTERNS spamIdx message")
  with assms(3) have b: "\<not> b" by simp
  from assms(1) have w: "\<not> includesAny (toLowerCase message) PROFANITY_severe"
      "\<not> includesAny (toLowerCase message) PROFANITY_moderate"
      "\<not> includesAny (toLowerCase message) PROFANITY_mild"
    by (simp_all add: includesAny_def)
  show ?thesis
    using assms(2,4) b by (simp add: moderateMessage_def Let_def t w)
qed

text \<open>
  Claim C10. The result of the classifier has a consistent shape: it deletes only what it
  flags, and it gives a reason, and a severity, exactly when it flags.
\<close>

theorem moderateMessage_shape:
  "(shouldDelete (fst (moderateMessage spamIdx message)) \<longrightarrow> shouldFlag (fst (moderateMessage spamIdx message)))
   \<and> (shouldFlag (fst (moderateMessage spamIdx message)) \<longleftrightarrow> flagReason (fst (moderateMessage spamIdx message)) \<noteq> None)
   \<and> (shouldFlag (fst (moderateMessage spamIdx message)) \<longleftrightarrow> severity (fst (moderateMessage spamIdx message)) \<noteq> None)"
proof -
  obtain b idx' where t: "testAny SPAM_PATTERNS spamIdx message = (b, idx')"
    by (cases "testAny SPAM_PATTERNS spamIdx message")
  show ?thesis
    by (cases b) (simp_all add: moderateMessage_def Let_def t)
qed

theorem moderateMessage_shape_witness:
  "shouldDelete (fst (moderateMessage [0, 0, 0, 0, 0] ''kys''))
   \<and> shouldFlag (fst (moderateMessage [0, 0, 0, 0, 0] ''kys''))
   \<and> flagReason (fst (moderateMessage [0, 0, 0, 0, 0] ''kys'')) = Some harassment
   \<and> severity (fst (moderateMessage [0, 0, 0, 0, 0] ''kys'')) = Some high"
proof -
  have e: "fst (moderateMessage [0, 0, 0, 0, 0] ''kys'')
           = \<lparr>shouldFlag = True, shouldDelete = True, flagReason = Some harassment, severity = Some high\<rparr>"
    by code_simp
  show ?thesis
    using moderateMessage_shape [of "[0, 0, 0, 0, 0]" "''kys''"] by (simp add: e)
qed

subsection \<open>Statistics of flagged messages\<close>

lemma stats_severity_split:
  "length (filter (\<lambda>msg. fm_severity msg = low) xs)
   + length (filter (\<lambda>msg. fm_severity msg = medium) xs)
   + length (filter (\<lambda>msg. fm_severity msg = high) xs) = length xs"
proof (induction xs)
  case Nil
  then show ?case by simp
next
  case (Cons x xs)
  then show ?case by (cases "fm_severity x") simp_all
qed

text \<open>
  Claim C7. For every list of flagged messages, \<open>total\<close> is the length of the list, the
  unreviewed and the reviewed messages add up to \<open>total\<close>, and the three \<open>bySeverity\<close>
  counts add up to \<open>unreviewed\<close>.
\<close>

theorem stats_totals:
  "total (getFlaggedMessagesStats fs) = length fs
   \<and> unreviewed (getFlaggedMessagesStats fs) + length (filter fm_reviewed fs)
       = total (getFlaggedMessagesStats fs)
   \<and> bySeverity_low (getFlaggedMessagesStats fs) + bySeverity_medium (getFlaggedMessagesStats fs)
       + bySeverity_high (getFlaggedMessagesStats fs) = unreviewed (getFlaggedMessagesStats fs)"
proof -
  have 1: "length (filter (\<lambda>msg. \<not> fm_reviewed msg) fs) + length (filter fm_reviewed fs) = length fs"
    using sum_length_filter_compl [of fm_reviewed fs] by simp
  have 2: "total (getFlaggedMessagesStats fs) = length fs"
    and 3: "unreviewed (getFlaggedMessagesStats fs) = length (filter (\<lambda>msg. \<not> fm_reviewed msg) fs)"
    by (simp_all add: getFlaggedMessagesStats_def Let_def)
  have 4: "bySeverity_low (getFlaggedMessagesStats fs) + bySeverity_medium (getFlaggedMessagesStats fs)
       + bySeverity_high (getFlaggedMessagesStats fs) = length (filter (\<lambda>msg. \<not> fm_reviewed msg) fs)"
    using stats_severity_split [of "filter (\<lambda>msg. \<not> fm_reviewed msg) fs"]
    by (simp add: getFlaggedMessagesStats_def Let_def del: filter_filter)
  show ?thesis
    using 1 2 3 4 by simp
qed

subsection \<open>The risk score\<close>

text \<open>The code's tests on an optional number, in the words of the signals.\<close>

lemma andGreater_signal: "andGreater x c = (signalAbove x c \<and> (c < 0 \<longrightarrow> x \<noteq> Some 0))"
  by (auto simp: andGreater_def signalAbove_def split: option.splits)

lemma andLess_signal: "andLess x c = (signalBelow x c \<and> x \<noteq> Some 0)"
  by (auto simp: andLess_def signalBelow_def split: option.splits)

lemma calculateRiskScore_sum:
  "calculateRiskScore m =
     (if andGreater (p_messagesPerHour m) 10 then 20 else 0)
     + (if andGreater (p_flaggedMessageRatio m) (1 / 10) then 30 else 0)
     + (if avgSentimentOf m < - (1 / 2) then 25 else 0)
     + (if andLess (p_responseTimeAvg m) 5000 then 15 else 0)
     + (if andLess (p_averageMessageLength m) 10 then 10 else 0)"
  by (simp add: calculateRiskScore_def Let_def)

text \<open>
  Claim C2, as stated: the score adds 15 whenever the response-time average is below 5000.
  A record whose response-time average is 0 has that signal, and the specification's sum is
  15; the code tests \<open>responseTimeAvg && responseTimeAvg < 5000\<close>, takes 0 for "no
  value", and returns 0.
\<close>

theorem riskScore_zero_response_counterexample:
  "signalBelow (p_responseTimeAvg (noMetrics\<lparr>p_responseTimeAvg := Some 0\<rparr>)) 5000
   \<and> riskScore_spec (noMetrics\<lparr>p_responseTimeAvg := Some 0\<rparr>) = 15
   \<and> calculateRiskScore (noMetrics\<lparr>p_responseTimeAvg := Some 0\<rparr>) = 0"
  by (simp add: riskScore_spec_def calculateRiskScore_def noMetrics_def signalAbove_def
      signalBelow_def andGreater_def andLess_def avgSentimentOf_def)

text \<open>
  Claim C2, amended. The score is the sum of the weights of the signals that hold: 20 for
  more than 10 messages per hour, 30 for a flagged ratio above 0.1, 25 for an average
  sentiment below -0.5, 15 for a response-time average below 5000 that is not 0, 10 for an
  average message length below 10 that is not 0. A field that is absent adds nothing, no
  signal subtracts, and the sum lies between 0 and 100, so the cap never cuts. Where neither
  of the two averages is 0 the score is the specification's sum.
\<close>

theorem riskScore_weighted_sum:
  "calculateRiskScore m =
     (if signalAbove (p_messagesPerHour m) 10 then 20 else 0)
     + (if signalAbove (p_flaggedMessageRatio m) (1 / 10) then 30 else 0)
     + (if avgSentimentOf m < - (1 / 2) then 25 else 0)
     + (if signalBelow (p_responseTimeAvg m) 5000 \<and> p_responseTimeAvg m \<noteq> Some 0 then 15 else 0)
     + (if signalBelow (p_averageMessageLength m) 10 \<and> p_averageMessageLength m \<noteq> Some 0 then 10 else 0)
   \<and> 0 \<le> calculateRiskScore m \<and> calculateRiskScore m \<le> 100
   \<and> (p_responseTimeAvg m \<noteq> Some 0 \<and> p_averageMessageLength m \<noteq> Some 0
        \<longrightarrow> calculateRiskScore m = riskScore_spec m)"
  unfolding calculateRiskScore_sum riskScore_spec_def andGreater_signal andLess_signal
  by simp
theorem riskScore_weighted_sum_witness:
  "p_responseTimeAvg (noMetrics\<lparr>p_messagesPerHour := Some 12, p_responseTimeAvg := Some 3000\<rparr>) \<noteq> Some 0
   \<and> p_averageMessageLength (noMetrics\<lparr>p_messagesPerHour := Some 12, p_responseTimeAvg := Some 3000\<rparr>) \<noteq> Some 0
   \<and> calculateRiskScore (noMetrics\<lparr>p_messagesPerHour := Some 12, p_responseTimeAvg := Some 3000\<rparr>) = 35
   \<and> riskScore_spec (noMetrics\<lparr>p_messagesPerHour := Some 12, p_responseTimeAvg := Some 3000\<rparr>) = 35"
  using riskScore_weighted_sum [of "noMetrics\<lparr>p_messagesPerHour := Some 12, p_responseTimeAvg := Some 3000\<rparr>"]
  by (simp add: noMetrics_def signalAbove_def signalBelow_def avgSentimentOf_def)

text \<open>A record in which every signal of another record holds scores at least as much.\<close>

lemma triggers_mono:
  assumes "list_all2 (\<lambda>a b. a \<longrightarrow> b) (triggers m) (triggers m')"
  shows "calculateRiskScore m \<le> calculateRiskScore m'"
  using assms unfolding calculateRiskScore_sum triggers_def
  by (simp add: add_mono)

lemma avgSentimentOf_upd [simp]:
  "avgSentimentOf (m\<lparr>p_messagesPerHour := x\<rparr>) = avgSentimentOf m"
  "avgSentimentOf (m\<lparr>p_flaggedMessageRatio := x\<rparr>) = avgSentimentOf m"
  "avgSentimentOf (m\<lparr>p_responseTimeAvg := x\<rparr>) = avgSentimentOf m"
  "avgSentimentOf (m\<lparr>p_averageMessageLength := x\<rparr>) = avgSentimentOf m"
  by (simp_all add: avgSentimentOf_def)



text \<open>
  In the values of the fields, with the other fields fixed: the score does not decrease
  when the messages per hour or the flagged ratio grow, nor when the average sentiment
  falls, nor when the response-time average or the average message length fall to a value
  that is not 0. The signals of the last two hold for low values, so a response-time
  average of 4000 scores 15 and one of 6000 scores 0.
\<close>

lemma riskScore_in_the_fields:
  "(a \<le> b \<longrightarrow> calculateRiskScore (m\<lparr>p_messagesPerHour := Some a\<rparr>)
                  \<le> calculateRiskScore (m\<lparr>p_messagesPerHour := Some b\<rparr>))
   \<and> (a \<le> b \<longrightarrow> calculateRiskScore (m\<lparr>p_flaggedMessageRatio := Some a\<rparr>)
                  \<le> calculateRiskScore (m\<lparr>p_flaggedMessageRatio := Some b\<rparr>))
   \<and> (a \<le> b \<and> a \<noteq> 0 \<longrightarrow> calculateRiskScore (m\<lparr>p_responseTimeAvg := Some b\<rparr>)
                  \<le> calculateRiskScore (m\<lparr>p_responseTimeAvg := Some a\<rparr>))
   \<and> (a \<le> b \<and> a \<noteq> 0 \<longrightarrow> calculateRiskScore (m\<lparr>p_averageMessageLength := Some b\<rparr>)
                  \<le> calculateRiskScore (m\<lparr>p_averageMessageLength := Some a\<rparr>))
   \<and> (avgSentimentOf (m\<lparr>p_sentimentTrend := t'\<rparr>) \<le> avgSentimentOf (m\<lparr>p_sentimentTrend := t\<rparr>)
        \<longrightarrow> calculateRiskScore (m\<lparr>p_sentimentTrend := t\<rparr>)
            \<le> calculateRiskScore (m\<lparr>p_sentimentTrend := t'\<rparr>))"
proof -
  have 1: "a \<le> b \<Longrightarrow> calculateRiskScore (m\<lparr>p_messagesPerHour := Some a\<rparr>)
                  \<le> calculateRiskScore (m\<lparr>p_messagesPerHour := Some b\<rparr>)"
    by (rule triggers_mono) (simp add: triggers_def andGreater_def)
  have 2: "a \<le> b \<Longrightarrow> calculateRiskScore (m\<lparr>p_flaggedMessageRatio := Some a\<rparr>)
                  \<le> calculateRiskScore (m\<lparr>p_flaggedMessageRatio := Some b\<rparr>)"
    by (rule triggers_mono) (simp add: triggers_def andGreater_def)
  have 3: "a \<le> b \<and> a \<noteq> 0 \<Longrightarrow> calculateRiskScore (m\<lparr>p_responseTimeAvg := Some b\<rparr>)
                  \<le> calculateRiskScore (m\<lparr>p_responseTimeAvg := Some a\<rparr>)"
    by (rule triggers_mono) (simp add: triggers_def andLess_def)
  have 4: "a \<le> b \<and> a \<noteq> 0 \<Longrightarrow> calculateRiskScore (m\<lparr>p_averageMessageLength := Some b\<rparr>)
                  \<le> calculateRiskScore (m\<lparr>p_averageMessageLength := Some a\<rparr>)"
    by (rule triggers_mono) (simp add: triggers_def andLess_def)
  have 5: "avgSentimentOf (m\<lparr>p_sentimentTrend := t'\<rparr>) \<le> avgSentimentOf (m\<lparr>p_sentimentTrend := t\<rparr>)
        \<Longrightarrow> calculateRiskScore (m\<lparr>p_sentimentTrend := t\<rparr>)
            \<le> calculateRiskScore (m\<lparr>p_sentimentTrend := t'\<rparr>)"
    by (rule triggers_mono) (simp add: triggers_def)
  show ?thesis
    using 1 2 3 4 5 by blast
qed

lemma riskScore_response_time_example:
  "calculateRiskScore (noMetrics\<lparr>p_responseTimeAvg := Some 4000\<rparr>) = 15
   \<and> calculateRiskScore (noMetrics\<lparr>p_responseTimeAvg := Some 6000\<rparr>) = 0"
  by (simp add: calculateRiskScore_def noMetrics_def andGreater_def andLess_def avgSentimentOf_def)

subsection \<open>Moderation effectiveness\<close>

lemma length_filter_two_way:
  "\<forall>x \<in> set xs. (P x \<or> Q x) \<and> \<not> (P x \<and> Q x) \<Longrightarrow>
     length (filter P xs) + length (filter Q xs) = length xs"
  by (induction xs) auto

text \<open>
  Claim C9, as stated: the accuracy rate is deleted / (deleted + approved). In a window with
  one reviewed flag that was deleted and one that was edited, that quotient is 1 (100 as a
  percentage); the code divides by the number of all reviewed flags and returns 50.
\<close>

theorem moderation_rates_counterexample:
  "deletedCount 2000 1 store_deleted_edited = 1
   \<and> approvedCount 2000 1 store_deleted_edited = 0
   \<and> map_option accuracyRate (analyzeModerationEffectiveness True 2000 1 store_deleted_edited) = Some 50
   \<and> map_option accuracyRate (analyzeModerationEffectiveness True 2000 1 store_deleted_edited)
       \<noteq> Some (of_nat (deletedCount 2000 1 store_deleted_edited)
                / of_nat (deletedCount 2000 1 store_deleted_edited + approvedCount 2000 1 store_deleted_edited))
   \<and> map_option accuracyRate (analyzeModerationEffectiveness True 2000 1 store_deleted_edited)
       \<noteq> Some (100 * (of_nat (deletedCount 2000 1 store_deleted_edited)
                / of_nat (deletedCount 2000 1 store_deleted_edited + approvedCount 2000 1 store_deleted_edited)))"
proof -
  have r: "recentReviewed 2000 1 store_deleted_edited = [reviewedFlag deleted, reviewedFlag edited]"
    by (simp add: recentReviewed_def store_deleted_edited_def emptyStore_def reviewedFlag_def emptyFlagNode_def)
  have d: "deletedCount 2000 1 store_deleted_edited = 1"
    and a: "approvedCount 2000 1 store_deleted_edited = 0"
    by (simp_all add: deletedCount_def approvedCount_def r reviewedFlag_def emptyFlagNode_def)
  have e: "map_option accuracyRate (analyzeModerationEffectiveness True 2000 1 store_deleted_edited) = Some 50"
    by (simp add: analyzeModerationEffectiveness_def Let_def r reviewedFlag_def emptyFlagNode_def)
  show ?thesis
    by (simp add: d a e)
qed

text \<open>
  Claim C9, amended. The accuracy rate is 100 times the deleted reviewed flags of the window
  over all its reviewed flags, the false-positive rate 100 times the approved ones over all
  its reviewed flags, and both are 0 when the window has no reviewed flag. When every
  reviewed flag of the window was deleted or approved, the divisor is deleted + approved.
\<close>

theorem moderation_rates:
  assumes "analyzeModerationEffectiveness True now days st = Some r"
  shows "totalReviews r = length (recentReviewed now days st)
       \<and> accuracyRate r = (if totalReviews r > 0
                           then of_nat (deletedCount now days st) / of_nat (totalReviews r) * 100 else 0)
       \<and> falsePositiveRate r = (if totalReviews r > 0
                           then of_nat (approvedCount now days st) / of_nat (totalReviews r) * 100 else 0)
       \<and> ((\<forall>flag \<in> set (recentReviewed now days st).
              fn_action flag = Some deleted \<or> fn_action flag = Some approved)
            \<longrightarrow> totalReviews r = deletedCount now days st + approvedCount now days st)"
proof -
  have t: "totalReviews r = length (recentReviewed now days st)"
    and a: "accuracyRate r = (if totalReviews r > 0
                           then of_nat (deletedCount now days st) / of_nat (totalReviews r) * 100 else 0)"
    and f: "falsePositiveRate r = (if totalReviews r > 0
                           then of_nat (approvedCount now days st) / of_nat (totalReviews r) * 100 else 0)"
    using assms
    by (auto simp: analyzeModerationEffectiveness_def Let_def deletedCount_def approvedCount_def)
  have s: "totalReviews r = deletedCount now days st + approvedCount now days st"
    if "\<forall>flag \<in> set (recentReviewed now days st).
              fn_action flag = Some deleted \<or> fn_action flag = Some approved"
    unfolding t deletedCount_def approvedCount_def
    by (rule length_filter_two_way [symmetric]) (use that in auto)
  show ?thesis
    using t a f s by blast
qed

theorem moderation_rates_witness:
  "(\<exists>r. analyzeModerationEffectiveness True 2000 1 store_deleted_approved = Some r
        \<and> totalReviews r = 2 \<and> accuracyRate r = 50 \<and> falsePositiveRate r = 50)
   \<and> deletedCount 2000 1 store_deleted_approved = 1
   \<and> approvedCount 2000 1 store_deleted_approved = 1
   \<and> list_all (\<lambda>flag. fn_action flag = Some deleted \<or> fn_action flag = Some approved)
        (recentReviewed 2000 1 store_deleted_approved)"
proof -
  have r: "recentReviewed 2000 1 store_deleted_approved = [reviewedFlag deleted, reviewedFlag approved]"
    by (simp add: recentReviewed_def store_deleted_approved_def emptyStore_def reviewedFlag_def emptyFlagNode_def)
  have d: "deletedCount 2000 1 store_deleted_approved = 1"
    and a: "approvedCount 2000 1 store_deleted_approved = 1"
    by (simp_all add: deletedCount_def approvedCount_def r reviewedFlag_def emptyFlagNode_def)
  obtain x where x: "analyzeModerationEffectiveness True 2000 1 store_deleted_approved = Some x"
    by (simp add: analyzeModerationEffectiveness_def Let_def)
  have l: "list_all (\<lambda>flag. fn_action flag = Some deleted \<or> fn_action flag = Some approved)
        (recentReviewed 2000 1 store_deleted_approved)"
    by (simp add: r reviewedFlag_def emptyFlagNode_def)
  show ?thesis
    using moderation_rates [OF x] x r d a l by simp
qed

subsection \<open>The behaviour analyzer on an empty window\<close>

text \<open>
  Claim C8. For a user with a stored profile and no message in the window, the analyzer
  returns the zeroed record: no message, averages and ratios 0, no peak hour, no sentiment
  trend, no keyword, risk score 0. It raises nothing: the function has a result for every
  input, and a failed read gives \<open>null\<close>.
\<close>

theorem empty_window_zeroed:
  assumes "map_of (users st) userId = Some user"
    and "\<forall>msg \<in> set (map snd (messages st)).
           \<not> (m_userId msg = Some userId \<and> m_timestamp msg > now - days * 24 * 60 * 60 * 1000)"
  shows "analyzeUserBehavior pf True now userId days st =
           Some \<lparr>ubm_userId = userId, ubm_email = u_email user, ubm_displayName = u_displayName user,
                 ubm_totalMessages = 0, ubm_averageMessageLength = 0,
                 ubm_averageWordsPerMessage = 0, ubm_messagesPerHour = 0,
                 ubm_peakActivityHours = [], ubm_sentimentTrend = [],
                 ubm_flaggedMessageRatio = 0, ubm_responseTimeAvg = 0,
                 ubm_topKeywords = [], ubm_riskScore = 0,
                 ubm_lastActivity = (case u_lastActive user of None \<Rightarrow> 0 | Some t \<Rightarrow> t)\<rparr>
       \<and> analyzeUserBehavior pf False now userId days st = None"
proof -
  have "filter (\<lambda>msg. m_userId msg = Some userId \<and> m_timestamp msg > now - days * 24 * 60 * 60 * 1000)
          (map snd (messages st)) = []"
    using assms(2) by (simp only: filter_empty_conv)
  then show ?thesis
    using assms(1) by (simp add: analyzeUserBehavior_def Let_def)
qed

theorem empty_window_zeroed_witness:
  "map_of (users store_one_message) ''u1'' \<noteq> None
   \<and> list_all (\<lambda>msg. \<not> (m_userId msg = Some ''u1'' \<and> m_timestamp msg > 200000000 - 1 * 24 * 60 * 60 * 1000))
        (map snd (messages store_one_message))
   \<and> map_option ubm_totalMessages (analyzeUserBehavior platform0 True 200000000 ''u1'' 1 store_one_message) = Some 0
   \<and> map_option ubm_riskScore (analyzeUserBehavior platform0 True 200000000 ''u1'' 1 store_one_message) = Some 0
   \<and> map_option ubm_lastActivity (analyzeUserBehavior platform0 True 200000000 ''u1'' 1 store_one_message) = Some 1000"
proof -
  have u: "map_of (users store_one_message) ''u1''
             = Some (emptyUserNode\<lparr>u_email := Some ''ann@example.com'', u_lastActive := Some 1000\<rparr>)"
    by (simp add: store_one_message_def emptyStore_def)
  have m: "\<forall>msg \<in> set (map snd (messages store_one_message)).
           \<not> (m_userId msg = Some ''u1'' \<and> m_timestamp msg > 200000000 - 1 * 24 * 60 * 60 * 1000)"
    by (simp add: store_one_message_def emptyStore_def)
  show ?thesis
    using empty_window_zeroed [OF u m, of platform0] u m
    by (simp add: list_all_iff emptyUserNode_def)
qed

subsection \<open>Review of a flagged message\<close>

text \<open>
  Claim C6. When a message id has a flag record and the database calls succeed,
  \<open>reviewFlaggedMessage(id, reviewer, 'deleted')\<close> returns true, the flag record is the
  old one with \<open>reviewed = true\<close> and the reviewer, the time and the action stamped,
  and a read of \<open>messages/{id}\<close> afterwards finds nothing.
\<close>

theorem review_deleted_roundtrip:
  assumes "readFlag st messageId = Some n"
  shows "fst (reviewFlaggedMessage True True now messageId reviewerId deleted st)
       \<and> readFlag (snd (reviewFlaggedMessage True True now messageId reviewerId deleted st)) messageId
           = Some (n\<lparr>fn_reviewed := Some True, fn_reviewedBy := Some reviewerId,
                     fn_reviewedAt := Some now, fn_action := Some deleted\<rparr>)
       \<and> readMessage (snd (reviewFlaggedMessage True True now messageId reviewerId deleted st)) messageId
           = None"
  using assms
  by (simp add: reviewFlaggedMessage_def deleteMessage_def readFlag_def readMessage_def
      updateNode_def Let_def update_conv' delete_conv')

theorem review_deleted_roundtrip_witness:
  "readFlag store_one_message ''m1'' \<noteq> None
   \<and> readMessage store_one_message ''m1'' \<noteq> None
   \<and> fst (reviewFlaggedMessage True True 2000 ''m1'' ''mod1'' deleted store_one_message)
   \<and> map_option fn_reviewed
        (readFlag (snd (reviewFlaggedMessage True True 2000 ''m1'' ''mod1'' deleted store_one_message)) ''m1'')
       = Some (Some True)
   \<and> map_option fn_action
        (readFlag (snd (reviewFlaggedMessage True True 2000 ''m1'' ''mod1'' deleted store_one_message)) ''m1'')
       = Some (Some deleted)
   \<and> readMessage (snd (reviewFlaggedMessage True True 2000 ''m1'' ''mod1'' deleted store_one_message)) ''m1''
       = None"
proof -
  have f: "readFlag store_one_message ''m1''
             = Some (emptyFlagNode\<lparr>fn_id := Some ''m1'', fn_reviewed := Some False\<rparr>)"
    by (simp add: readFlag_def store_one_message_def emptyStore_def)
  have g: "readMessage store_one_message ''m1'' \<noteq> None"
    by (simp add: readMessage_def store_one_message_def emptyStore_def)
  show ?thesis
    using review_deleted_roundtrip [OF f, of 2000 "''mod1''"] f g by simp
qed

text \<open>
  When the removal of the message fails, the review still returns true and the message is
  still there: the result of \<open>deleteMessage\<close> is not looked at.
\<close>

lemma review_deleted_remove_fails:
  "fst (reviewFlaggedMessage True False now messageId reviewerId deleted st)
   \<and> readMessage (snd (reviewFlaggedMessage True False now messageId reviewerId deleted st)) messageId
       = readMessage st messageId"
  by (simp add: reviewFlaggedMessage_def deleteMessage_def readMessage_def Let_def)

subsection \<open>Bans\<close>

text \<open>
  An update of one entry adds at most one element to a filtered list, and a change of an
  entry that takes it out of the filter adds none.
\<close>

lemma filter_map_entry_le:
  "(\<And>v. P (k, f v) \<Longrightarrow> P (k, v)) \<Longrightarrow>
     length (filter P (AList.map_entry k f al)) \<le> length (filter P al)"
  by (induction al) auto

lemma filter_update_le:
  "length (filter P (AList.update k v al)) \<le> length (filter P al) + (if P (k, v) then 1 else 0)"
  by (induction al) auto

text \<open>The invariant says that every user has at most one active record in \<open>bans\<close>.\<close>

lemma atMostOneActiveBan_iff:
  "atMostOneActiveBan st \<longleftrightarrow> (\<forall>uid. length (activeBans st uid) \<le> 1)"
proof
  assume inv: "atMostOneActiveBan st"
  show "\<forall>uid. length (activeBans st uid) \<le> 1"
  proof
    fix uid
    show "length (activeBans st uid) \<le> 1"
    proof (cases "activeBans st uid")
      case Nil
      then show ?thesis by simp
    next
      case (Cons e es)
      then have "e \<in> set (activeBans st uid)" by simp
      then have "e \<in> set (bans st)" and "ban_userId (snd e) = uid"
        by (auto simp: activeBans_def)
      with inv show ?thesis
        by (auto simp: atMostOneActiveBan_def list_all_iff)
    qed
  qed
next
  assume "\<forall>uid. length (activeBans st uid) \<le> 1"
  then show "atMostOneActiveBan st"
    by (simp add: atMostOneActiveBan_def list_all_iff split: prod.splits)
qed

text \<open>
  \<open>unbanUser\<close> adds no active record to \<open>bans\<close> for any user, whichever of its
  database calls fail; \<open>banUser\<close> adds at most one, for the user it bans.
\<close>

lemma unbanUser_activeBans_le:
  "length (activeBans (snd (unbanUser okGet okBan okUser okLog now logNow userId revokedBy revokeReason st)) uid)
     \<le> length (activeBans st uid)"
proof -
  have "length (filter (\<lambda>(_, ban). ban_userId ban = uid \<and> ban_isActive ban)
           (AList.map_entry k (\<lambda>b. b\<lparr>ban_isActive := False, ban_revokedBy := Some revokedBy,
                                      ban_revokedAt := Some now,
                                      ban_revokeReason := Some revokeReason\<rparr>) (bans st)))
        \<le> length (filter (\<lambda>(_, ban). ban_userId ban = uid \<and> ban_isActive ban) (bans st))" for k
    by (rule filter_map_entry_le) simp
  then show ?thesis
    by (simp add: unbanUser_def activeBans_def logActivity_def Let_def split: option.splits prod.splits)
qed

lemma writeBanRecord_userId [simp]:
  "ban_userId (writeBanRecord r node) = ban_userId r"
  "ban_userId (newBanRecord banId userId bannedBy reason type startDate endDate) = userId"
  by (simp_all add: writeBanRecord_def newBanRecord_def)

lemma filter_updateNode_le:
  "length (filter (\<lambda>(_, ban). ban_userId ban = uid \<and> ban_isActive ban)
      (updateNode r k (writeBanRecord r) al))
   \<le> length (filter (\<lambda>(_, ban). ban_userId ban = uid \<and> ban_isActive ban) al)
      + (if uid = ban_userId r then 1 else 0)"
  unfolding updateNode_def
  by (rule order_trans [OF filter_update_le]) simp

lemma banUser_activeBans_le:
  "length (activeBans (snd (banUser okBan okUser okLog banId now logNow userId bannedBy reason type duration st)) uid)
     \<le> length (activeBans st uid) + (if uid = userId then 1 else 0)"
  using filter_updateNode_le
    [of uid "newBanRecord banId userId bannedBy reason type now
               (case duration of None \<Rightarrow> None
                | Some d \<Rightarrow> if type = temporary \<and> d \<noteq> 0 then Some (now + d * 60 * 60 * 1000) else None)"
        banId "bans st"]
  by (cases "uid = userId") (simp_all add: banUser_def activeBans_def logActivity_def Let_def)

text \<open>
  Claim C5, as stated: in every store reached through the ban operations a user has at most
  one ban record with \<open>isActive = true\<close>, and every call of \<open>banUser\<close> keeps it so.
  \<open>banUser\<close> does not look for an active ban: from the empty store, a ban of a user
  gives a store with one active record in \<open>bans\<close>, and a second ban of the same user a
  store with two. And \<open>unbanUser\<close> changes the record in \<open>bans\<close> only, not the copy
  under \<open>users/{uid}/banHistory\<close>: after a ban, an unban and a second ban of a user,
  each for a user with no active record in \<open>bans\<close>, the user has one active record in
  \<open>bans\<close> and two active copies in the history.
\<close>

theorem second_ban_counterexample:
  "atMostOneActiveBan
     (snd (banUser True True True ''b1'' 1000 1001 ''u1'' ''admin'' ''spam'' temporary (Some 24) emptyStore))
   \<and> \<not> atMostOneActiveBan
     (snd (banUser True True True ''b2'' 2000 2001 ''u1'' ''admin'' ''again'' temporary (Some 24)
        (snd (banUser True True True ''b1'' 1000 1001 ''u1'' ''admin'' ''spam'' temporary (Some 24) emptyStore))))
   \<and> length (activeBans
        (snd (banUser True True True ''b2'' 4000 4001 ''u1'' ''admin'' ''again'' temporary (Some 24)
          (snd (unbanUser True True True True 3000 3001 ''u1'' ''admin'' ''appeal''
            (snd (banUser True True True ''b1'' 1000 1001 ''u1'' ''admin'' ''spam'' temporary (Some 24) emptyStore))))))
        ''u1'') = 1
   \<and> length (activeHistory
        (snd (banUser True True True ''b2'' 4000 4001 ''u1'' ''admin'' ''again'' temporary (Some 24)
          (snd (unbanUser True True True True 3000 3001 ''u1'' ''admin'' ''appeal''
            (snd (banUser True True True ''b1'' 1000 1001 ''u1'' ''admin'' ''spam'' temporary (Some 24) emptyStore))))))
        ''u1'') = 2"
  by (simp add: banUser_def unbanUser_def logActivity_def updateNode_def emptyStore_def emptyUserNode_def
      newBanRecord_def writeBanRecord_def atMostOneActiveBan_def activeBans_def activeHistory_def Let_def)

lemma unbanUser_preserves:
  assumes "atMostOneActiveBan st"
  shows "atMostOneActiveBan
           (snd (unbanUser okGet okBan okUser okLog now logNow userId revokedBy revokeReason st))"
proof -
  have "length (activeBans st uid) \<le> 1" for uid
    using assms by (simp add: atMostOneActiveBan_iff)
  then have "length (activeBans (snd (unbanUser okGet okBan okUser okLog now logNow userId revokedBy revokeReason st)) uid) \<le> 1" for uid
    using order_trans [OF unbanUser_activeBans_le [of okGet okBan okUser okLog now logNow userId revokedBy revokeReason st uid]]
    by blast
  then show ?thesis
    by (simp add: atMostOneActiveBan_iff)
qed

lemma banUser_preserves:
  assumes "atMostOneActiveBan st" and "activeBans st userId = []"
  shows "atMostOneActiveBan
           (snd (banUser okBan okUser okLog banId now logNow userId bannedBy reason type duration st))"
proof -
  have le: "length (activeBans st uid) \<le> 1" for uid
    using assms(1) by (simp add: atMostOneActiveBan_iff)
  have "length (activeBans (snd (banUser okBan okUser okLog banId now logNow userId bannedBy reason type duration st)) uid) \<le> 1" for uid
    using banUser_activeBans_le [of okBan okUser okLog banId now logNow userId bannedBy reason type duration st uid]
      le [of uid] assms(2)
    by (cases "uid = userId") simp_all
  then show ?thesis
    by (simp add: atMostOneActiveBan_iff)
qed

lemma guardedReachable_invariant: "guardedReachable st \<Longrightarrow> atMostOneActiveBan st"
proof (induction rule: guardedReachable.induct)
  case start
  show ?case
    by (simp add: atMostOneActiveBan_def emptyStore_def)
next
  case (ban st userId okBan okUser okLog banId now logNow bannedBy reason type duration)
  then show ?case
    by (simp add: banUser_preserves)
next
  case (unban st okGet okBan okUser okLog now logNow userId revokedBy revokeReason)
  then show ?case
    by (simp add: unbanUser_preserves)
qed

text \<open>
  Claim C5, amended. Among the records of the collection \<open>bans\<close>, every call of
  \<open>unbanUser\<close> keeps the invariant "at most one record with \<open>isActive = true\<close> per
  user", and so does every call of \<open>banUser\<close> for a user who has no such record in
  \<open>bans\<close> at the call, whatever database calls fail. So the invariant holds in every
  store reached from the empty one by such calls.
\<close>

theorem ban_operations_preserve:
  "(atMostOneActiveBan st \<longrightarrow>
      atMostOneActiveBan (snd (unbanUser okGet okBan okUser okLog now logNow userId revokedBy revokeReason st)))
   \<and> (atMostOneActiveBan st \<and> activeBans st userId = [] \<longrightarrow>
      atMostOneActiveBan (snd (banUser okBan' okUser' okLog' banId now' logNow' userId bannedBy reason type duration st)))
   \<and> (guardedReachable st \<longrightarrow> atMostOneActiveBan st)"
proof (intro conjI impI)
  assume "atMostOneActiveBan st"
  then show "atMostOneActiveBan (snd (unbanUser okGet okBan okUser okLog now logNow userId revokedBy revokeReason st))"
    by (rule unbanUser_preserves)
next
  assume "atMostOneActiveBan st \<and> activeBans st userId = []"
  then show "atMostOneActiveBan (snd (banUser okBan' okUser' okLog' banId now' logNow' userId bannedBy reason type duration st))"
    by (simp add: banUser_preserves)
next
  assume "guardedReachable st"
  then show "atMostOneActiveBan st"
    by (rule guardedReachable_invariant)
qed

theorem ban_operations_preserve_witness:
  "atMostOneActiveBan emptyStore \<and> activeBans emptyStore ''u1'' = []
   \<and> guardedReachable
       (snd (banUser True True True ''b1'' 1000 1001 ''u1'' ''admin'' ''spam'' temporary (Some 24) emptyStore))
   \<and> atMostOneActiveBan
       (snd (banUser True True True ''b1'' 1000 1001 ''u1'' ''admin'' ''spam'' temporary (Some 24) emptyStore))
   \<and> length (activeBans
       (snd (banUser True True True ''b1'' 1000 1001 ''u1'' ''admin'' ''spam'' temporary (Some 24) emptyStore)) ''u1'') = 1
   \<and> atMostOneActiveBan
       (snd (unbanUser True True True True 3000 3001 ''u1'' ''admin'' ''appeal''
          (snd (banUser True True True ''b1'' 1000 1001 ''u1'' ''admin'' ''spam'' temporary (Some 24) emptyStore))))
   \<and> activeBans
       (snd (unbanUser True True True True 3000 3001 ''u1'' ''admin'' ''appeal''
          (snd (banUser True True True ''b1'' 1000 1001 ''u1'' ''admin'' ''spam'' temporary (Some 24) emptyStore)))) ''u1'' = []"
proof -
  let ?s1 = "snd (banUser True True True ''b1'' 1000 1001 ''u1'' ''admin'' ''spam'' temporary (Some 24) emptyStore)"
  have e: "atMostOneActiveBan emptyStore" "activeBans emptyStore ''u1'' = []"
    by (simp_all add: atMostOneActiveBan_def activeBans_def emptyStore_def)
  have g: "guardedReachable ?s1"
    by (rule guardedReachable.ban [OF guardedReachable.start e(2)])
  note t = ban_operations_preserve [of _ True True True True 3000 3001 "''u1''" "''admin''" "''appeal''"
             True True True "''b1''" 1000 1001 "''admin''" "''spam''" temporary "Some 24"]
  have b: "atMostOneActiveBan ?s1"
    using t [of emptyStore] e by simp
  have u: "atMostOneActiveBan (snd (unbanUser True True True True 3000 3001 ''u1'' ''admin'' ''appeal'' ?s1))"
    using t [of ?s1] b by simp
  have c: "length (activeBans ?s1 ''u1'') = 1"
    "activeBans (snd (unbanUser True True True True 3000 3001 ''u1'' ''admin'' ''appeal'' ?s1)) ''u1'' = []"
    by (simp_all add: banUser_def unbanUser_def logActivity_def updateNode_def emptyStore_def
        emptyUserNode_def newBanRecord_def writeBanRecord_def activeBans_def Let_def)
  show ?thesis
    using e g b u c by simp
qed

end
